theory Spec2Isabelle
  imports Main "HOL-Library.Word"
begin

unbundle bit_operations_syntax

section \<open>Numbers, bytes and typed arrays (types.d.ts, util.ts)\<close>

text \<open>
  \<^verbatim>\<open>type Byte = number\<close> holds values 0..255 and is modelled as an 8-bit word;
  \<^verbatim>\<open>type Address = Word = number\<close> is never masked by the regions or the bus and is
  modelled as an unbounded integer.  An undefined value (a missing return, an array
  element out of range) is \<open>None\<close>.
\<close>

type_synonym byte = "8 word"

text \<open>
  JavaScript's \<^verbatim>\<open>a % b\<close> on integers: the remainder truncates towards zero and takes the
  sign of the dividend; with \<^verbatim>\<open>b = 0\<close> the result is NaN, here \<open>None\<close>.
\<close>

definition js_rem :: "int \<Rightarrow> int \<Rightarrow> int option" where
  "js_rem a b = (if b = 0 then None else Some (sgn a * (\<bar>a\<bar> mod \<bar>b\<bar>)))"

text \<open>The same remainder where the divisor is a constant other than 0.\<close>

definition rem_const :: "int \<Rightarrow> int \<Rightarrow> int" where
  "rem_const a b = sgn a * (\<bar>a\<bar> mod \<bar>b\<bar>)"

text \<open>
  \<^verbatim>\<open>0xff & bytes[index]\<close> on a \<^verbatim>\<open>Uint8Array\<close>: an index that is NaN, negative or past the
  end reads \<^verbatim>\<open>undefined\<close>, and \<^verbatim>\<open>0xff & undefined\<close> is 0.
\<close>

definition byteAt :: "byte list \<Rightarrow> int option \<Rightarrow> byte" where
  "byteAt bs index =
     (case index of
        None \<Rightarrow> 0
      | Some i \<Rightarrow> if 0 \<le> i \<and> i < int (length bs) then bs ! nat i else 0)"

text \<open>
  \<^verbatim>\<open>bytes[index] = byte\<close> on a \<^verbatim>\<open>Uint8Array\<close>: the array never grows, a store at an index
  that is NaN, negative or past the end is ignored.
\<close>

definition storeAt :: "byte list \<Rightarrow> int option \<Rightarrow> byte \<Rightarrow> byte list" where
  "storeAt bs index b =
     (case index of
        None \<Rightarrow> bs
      | Some i \<Rightarrow> if 0 \<le> i \<and> i < int (length bs) then bs[nat i := b] else bs)"

text \<open>\<^verbatim>\<open>getBit(byte, index)\<close>: \<^verbatim>\<open>!(byte & 1 << index) ? 0 : 1\<close>.\<close>

definition getBit :: "byte \<Rightarrow> nat \<Rightarrow> nat" where
  "getBit b index = (if b AND push_bit index 1 = 0 then 0 else 1)"

text \<open>\<^verbatim>\<open>setBit(byte, index, bit)\<close>; the last argument is the truthiness of the source's.\<close>

definition setBit :: "byte \<Rightarrow> nat \<Rightarrow> bool \<Rightarrow> byte" where
  "setBit b index v =
     (if v then b OR push_bit index 1 else b AND NOT (push_bit index 1))"

text \<open>\<^verbatim>\<open>compareBytes(a, b)\<close>: equal lengths and equal elements.\<close>

fun compareBytes :: "byte list \<Rightarrow> byte list \<Rightarrow> bool" where
  "compareBytes [] [] = True"
| "compareBytes (x # xs) (y # ys) = (if x \<noteq> y then False else compareBytes xs ys)"
| "compareBytes _ _ = False"

section \<open>Addressable regions (addressable.ts, ram.ts, rom.ts)\<close>

record addressable =
  startAddress :: int
  endAddress :: int
  mirrorEndAddress :: int
  actualSize :: int
  mirrorSize :: int

text \<open>The constructor of \<^verbatim>\<open>Addressable\<close>; \<open>None\<close> is an omitted \<^verbatim>\<open>mirrorEndAddress\<close>.\<close>

definition Addressable :: "int \<Rightarrow> int \<Rightarrow> int option \<Rightarrow> addressable" where
  "Addressable s e m =
     (let me = (case m of None \<Rightarrow> e | Some x \<Rightarrow> x)
      in \<lparr>startAddress = s, endAddress = e, mirrorEndAddress = me,
          actualSize = e - s + 1, mirrorSize = me - s + 1\<rparr>)"

text \<open>The base class answers every read with 0x00 and ignores every write.\<close>

definition Addressable_read :: "addressable \<Rightarrow> int \<Rightarrow> byte" where
  "Addressable_read r address = 0"

definition Addressable_write :: "addressable \<Rightarrow> int \<Rightarrow> byte \<Rightarrow> addressable" where
  "Addressable_write r address b = r"

text \<open>\<^verbatim>\<open>RAM\<close> and \<^verbatim>\<open>ROM\<close> extend \<^verbatim>\<open>Addressable\<close> with a \<^verbatim>\<open>Uint8Array\<close> of bytes.\<close>

record memory = addressable +
  bytes :: "byte list"

text \<open>
  The constructors of \<^verbatim>\<open>RAM\<close> and \<^verbatim>\<open>ROM\<close> have the same body.
  \<^verbatim>\<open>new Uint8Array(n)\<close> throws a RangeError for a negative \<open>n\<close> (\<open>None\<close>) and is
  filled with zeros otherwise.
\<close>

definition newMemory :: "int \<Rightarrow> int \<Rightarrow> int option \<Rightarrow> memory option" where
  "newMemory s e m =
     (let a = Addressable s e m
      in if actualSize a < 0 then None
         else Some (addressable.extend a
                      (memory.fields (replicate (nat (actualSize a)) 0))))"

definition RAM_read :: "memory \<Rightarrow> int \<Rightarrow> byte" where
  "RAM_read r address =
     (let index = js_rem (address - startAddress r) (actualSize r)
      in byteAt (bytes r) index)"

definition RAM_write :: "memory \<Rightarrow> int \<Rightarrow> byte \<Rightarrow> memory" where
  "RAM_write r address b =
     (let index = js_rem (address - startAddress r) (actualSize r)
      in r\<lparr>bytes := storeAt (bytes r) index b\<rparr>)"

definition ROM_read :: "memory \<Rightarrow> int \<Rightarrow> byte" where
  "ROM_read r address =
     (let index = js_rem (address - startAddress r) (actualSize r)
      in byteAt (bytes r) index)"

text \<open>\<^verbatim>\<open>ROM.write\<close> only logs a warning.\<close>

definition ROM_write :: "memory \<Rightarrow> int \<Rightarrow> byte \<Rightarrow> memory" where
  "ROM_write r address b = r"

definition ROM_setByte :: "memory \<Rightarrow> int \<Rightarrow> byte \<Rightarrow> memory" where
  "ROM_setByte r address b =
     (let index = js_rem (address - startAddress r) (actualSize r)
      in r\<lparr>bytes := storeAt (bytes r) index b\<rparr>)"

text \<open>
  \<^verbatim>\<open>ROM.load(startAddress, bytes)\<close>: \<^verbatim>\<open>actualSize\<close> becomes the length of the image, then
  the loop stores \<^verbatim>\<open>bytes[i]\<close> at \<^verbatim>\<open>startAddress + i\<close> for \<open>i = 0, 1, ...\<close>.
\<close>

definition ROM_load :: "memory \<Rightarrow> int \<Rightarrow> byte list \<Rightarrow> memory" where
  "ROM_load r s bs =
     foldl (\<lambda>r' i. ROM_setByte r' (s + int i) (bs ! i))
       (r\<lparr>actualSize := int (length bs)\<rparr>) [0..<length bs]"

section \<open>The bus (bus.ts, events.ts)\<close>

text \<open>
  The bus holds \<^verbatim>\<open>Addressable\<close> objects and calls their overridden \<^verbatim>\<open>read\<close> and
  \<^verbatim>\<open>write\<close>.  The dynamic dispatch is a record of the three members the bus uses, so
  that the same bus serves any family of regions; a read may change the region it reads
  (the PPU and the controllers do).
\<close>

record 'd addressable_class =
  startAddressOf :: "'d \<Rightarrow> int"
  readOf :: "'d \<Rightarrow> int \<Rightarrow> byte \<times> 'd"
  writeOf :: "'d \<Rightarrow> int \<Rightarrow> byte \<Rightarrow> 'd"

text \<open>
  \<^verbatim>\<open>Bus extends EventEmitter\<close>: the events emitted on the bus are kept as a log, most
  recent last (the listeners are closures of other objects).
\<close>

record 'd bus =
  addressables :: "'d list"
  emitted :: "string list"

text \<open>\<^verbatim>\<open>Bus.reset\<close>: a stable sort by \<^verbatim>\<open>startAddress\<close>, high to low.\<close>

definition Bus_reset :: "'d addressable_class \<Rightarrow> 'd bus \<Rightarrow> 'd bus" where
  "Bus_reset C b =
     b\<lparr>addressables := sort_key (\<lambda>d. - startAddressOf C d) (addressables b)\<rparr>"

definition Bus :: "'d addressable_class \<Rightarrow> 'd list \<Rightarrow> 'd bus" where
  "Bus C ds = Bus_reset C \<lparr>addressables = ds, emitted = []\<rparr>"

text \<open>
  The loop of \<^verbatim>\<open>Bus.read\<close>: skip the regions that start above the address, let the first
  other one answer.  When the loop ends the function returns nothing: \<^verbatim>\<open>undefined\<close>.
\<close>

fun readFirst :: "'d addressable_class \<Rightarrow> 'd list \<Rightarrow> int \<Rightarrow> byte option \<times> 'd list" where
  "readFirst C [] address = (None, [])"
| "readFirst C (d # ds) address =
     (if address < startAddressOf C d
      then (let (r, ds') = readFirst C ds address in (r, d # ds'))
      else (let (b, d') = readOf C d address in (Some b, d' # ds)))"

definition Bus_read :: "'d addressable_class \<Rightarrow> 'd bus \<Rightarrow> int \<Rightarrow> byte option \<times> 'd bus" where
  "Bus_read C b address =
     (let (r, ds') = readFirst C (addressables b) address
      in (r, b\<lparr>addressables := ds'\<rparr>))"

fun writeFirst :: "'d addressable_class \<Rightarrow> 'd list \<Rightarrow> int \<Rightarrow> byte \<Rightarrow> 'd list" where
  "writeFirst C [] address b = []"
| "writeFirst C (d # ds) address b =
     (if address < startAddressOf C d
      then d # writeFirst C ds address b
      else writeOf C d address b # ds)"

definition Bus_write :: "'d addressable_class \<Rightarrow> 'd bus \<Rightarrow> int \<Rightarrow> byte \<Rightarrow> 'd bus" where
  "Bus_write C b address v = b\<lparr>addressables := writeFirst C (addressables b) address v\<rparr>"

text \<open>\<^verbatim>\<open>EventEmitter.emit\<close>.\<close>

definition Bus_emit :: "'d bus \<Rightarrow> string \<Rightarrow> 'd bus" where
  "Bus_emit b event = b\<lparr>emitted := emitted b @ [event]\<rparr>"

text \<open>The regions without side effects on reading: RAM, ROM and the plain base class.\<close>

datatype region = RAM memory | ROM memory | Plain addressable

fun region_start :: "region \<Rightarrow> int" where
  "region_start (RAM r) = startAddress r"
| "region_start (ROM r) = startAddress r"
| "region_start (Plain r) = startAddress r"

fun region_read :: "region \<Rightarrow> int \<Rightarrow> byte \<times> region" where
  "region_read (RAM r) address = (RAM_read r address, RAM r)"
| "region_read (ROM r) address = (ROM_read r address, ROM r)"
| "region_read (Plain r) address = (Addressable_read r address, Plain r)"

fun region_write :: "region \<Rightarrow> int \<Rightarrow> byte \<Rightarrow> region" where
  "region_write (RAM r) address b = RAM (RAM_write r address b)"
| "region_write (ROM r) address b = ROM (ROM_write r address b)"
| "region_write (Plain r) address b = Plain (Addressable_write r address b)"

definition regions :: "region addressable_class" where
  "regions = \<lparr>startAddressOf = region_start, readOf = region_read, writeOf = region_write\<rparr>"

text \<open>The program ROM of the console, \<^verbatim>\<open>new ROM(0x4020, 0xffff)\<close> in the constructor of \<^verbatim>\<open>NES\<close>.\<close>

definition NES_prg :: "memory option" where
  "NES_prg = newMemory 0x4020 0xffff None"

text \<open>Two small ROMs, as \<^verbatim>\<open>new ROM(0, 1)\<close> and \<^verbatim>\<open>new ROM(0, 3)\<close> build them.\<close>

definition tiny_rom :: memory where
  "tiny_rom = \<lparr>startAddress = 0, endAddress = 1, mirrorEndAddress = 1, actualSize = 2,
                mirrorSize = 2, bytes = [0, 0]\<rparr>"

definition small_rom :: memory where
  "small_rom = \<lparr>startAddress = 0, endAddress = 3, mirrorEndAddress = 3, actualSize = 4,
                mirrorSize = 4, bytes = [0, 0, 0, 0]\<rparr>"

text \<open>The value \<^verbatim>\<open>new ROM(0x4020, 0xffff)\<close> evaluates to.\<close>

definition NES_prg_rom :: memory where
  "NES_prg_rom = \<lparr>startAddress = 0x4020, endAddress = 0xffff, mirrorEndAddress = 0xffff,
                   actualSize = 49120, mirrorSize = 49120, bytes = replicate 49120 0\<rparr>"

text \<open>A RAM of 16 bytes at 0x10..0x1f, as \<^verbatim>\<open>new RAM(0x10, 0x1f)\<close> builds it.\<close>

definition ram16 :: memory where
  "ram16 = \<lparr>startAddress = 0x10, endAddress = 0x1f, mirrorEndAddress = 0x1f,
             actualSize = 16, mirrorSize = 16, bytes = replicate 16 0\<rparr>"

section \<open>The iNES header (cartridge.ts)\<close>

datatype INESHeaderMirroring = vertical | horizontal | four

datatype INESHeaderTVSystem = ntsc | pal | dual

text \<open>\<^verbatim>\<open>prgSize\<close> and \<^verbatim>\<open>chrSize\<close> are products with a header byte: NaN (\<open>None\<close>) when the
  buffer is too short to have that byte.\<close>

record INESHeader =
  prgSize :: "int option"
  chrSize :: "int option"
  battery :: bool
  trainer :: bool
  vsUnisystem :: bool
  pc10 :: bool
  ines2 :: bool
  prgRamSize :: int
  prgRam :: bool
  busConflicts :: bool
  mapper :: int
  mirror :: INESHeaderMirroring
  tvSystem :: INESHeaderTVSystem

datatype cartridge_error = InvalidINESHeader

text \<open>\<^verbatim>\<open>stringToBytes('NES\u001a')\<close>: the UTF-8 bytes of the four characters.\<close>

definition HEADER_INES_DECLARATION :: "byte list" where
  "HEADER_INES_DECLARATION = [0x4E, 0x45, 0x53, 0x1A]"

definition HEADER_PRG_ROM_UNITS :: int where "HEADER_PRG_ROM_UNITS = 16 * 1024"
definition HEADER_CHR_ROM_UNITS :: int where "HEADER_CHR_ROM_UNITS = 8 * 1024"

definition HEADER_FLAGS_6_MASK_MIRROR_VERTICAL :: int where "HEADER_FLAGS_6_MASK_MIRROR_VERTICAL = 0x01"
definition HEADER_FLAGS_6_MASK_BATTERY :: int where "HEADER_FLAGS_6_MASK_BATTERY = 0x02"
definition HEADER_FLAGS_6_MASK_TRAINER :: int where "HEADER_FLAGS_6_MASK_TRAINER = 0x04"
definition HEADER_FLAGS_6_MASK_MIRROR_FOUR_SCREEN :: int where "HEADER_FLAGS_6_MASK_MIRROR_FOUR_SCREEN = 0x08"
definition HEADER_FLAGS_6_MASK_MAPPER_LO :: int where "HEADER_FLAGS_6_MASK_MAPPER_LO = 0xF0"
definition HEADER_FLAGS_7_MASK_VS_UNISYSTEM :: int where "HEADER_FLAGS_7_MASK_VS_UNISYSTEM = 0x01"
definition HEADER_FLAGS_7_MASK_PC_10 :: int where "HEADER_FLAGS_7_MASK_PC_10 = 0x02"
definition HEADER_FLAGS_7_MASK_INES2 :: int where "HEADER_FLAGS_7_MASK_INES2 = 0x0C"
definition HEADER_FLAGS_7_MASK_MAPPER_HI :: int where "HEADER_FLAGS_7_MASK_MAPPER_HI = 0xF0"
definition HEADER_FLAGS_8_MASK_PRG_RAM_SIZE :: int where "HEADER_FLAGS_8_MASK_PRG_RAM_SIZE = 0xFF"
definition HEADER_FLAGS_9_MASK_TV_SYSTEM_PAL :: int where "HEADER_FLAGS_9_MASK_TV_SYSTEM_PAL = 0x01"
definition HEADER_FLAGS_10_MASK_TV_SYSTEM_DUAL :: int where "HEADER_FLAGS_10_MASK_TV_SYSTEM_DUAL = 0x01"
definition HEADER_FLAGS_10_MASK_PRG_RAM :: int where "HEADER_FLAGS_10_MASK_PRG_RAM = 0x10"
definition HEADER_FLAGS_10_MASK_BUS_CONFLICTS :: int where "HEADER_FLAGS_10_MASK_BUS_CONFLICTS = 0x20"

text \<open>\<^verbatim>\<open>bytes[i]\<close> on the header array: \<^verbatim>\<open>undefined\<close> (\<open>None\<close>) past its end.\<close>

definition elementAt :: "byte list \<Rightarrow> nat \<Rightarrow> byte option" where
  "elementAt bs i = (if i < length bs then Some (bs ! i) else None)"

text \<open>\<^verbatim>\<open>bytes[i] & mask\<close>: \<^verbatim>\<open>undefined\<close> counts as 0 in a bitwise operation.\<close>

definition masked :: "byte option \<Rightarrow> int \<Rightarrow> int" where
  "masked v m = (case v of None \<Rightarrow> 0 | Some b \<Rightarrow> uint b AND m)"

text \<open>\<^verbatim>\<open>bytes[i] * units\<close>: NaN when the byte is \<^verbatim>\<open>undefined\<close>.\<close>

definition scaled :: "byte option \<Rightarrow> int \<Rightarrow> int option" where
  "scaled v units = (case v of None \<Rightarrow> None | Some b \<Rightarrow> Some (uint b * units))"

definition parseHeader :: "byte list \<Rightarrow> cartridge_error + INESHeader" where
  "parseHeader bs =
     (if \<not> compareBytes (take 4 bs) HEADER_INES_DECLARATION then Inl InvalidINESHeader
      else
        let prgSize' = scaled (elementAt bs 4) HEADER_PRG_ROM_UNITS;
            chrSize' = scaled (elementAt bs 5) HEADER_CHR_ROM_UNITS;
            mirrorVertical = (masked (elementAt bs 6) HEADER_FLAGS_6_MASK_MIRROR_VERTICAL \<noteq> 0);
            battery' = (masked (elementAt bs 6) HEADER_FLAGS_6_MASK_BATTERY \<noteq> 0);
            trainer' = (masked (elementAt bs 6) HEADER_FLAGS_6_MASK_TRAINER \<noteq> 0);
            mirrorFourScreen = (masked (elementAt bs 6) HEADER_FLAGS_6_MASK_MIRROR_FOUR_SCREEN \<noteq> 0);
            mapperLo = push_bit 0 (masked (elementAt bs 6) HEADER_FLAGS_6_MASK_MAPPER_LO);
            vsUnisystem' = (masked (elementAt bs 7) HEADER_FLAGS_7_MASK_VS_UNISYSTEM \<noteq> 0);
            pc10' = (masked (elementAt bs 7) HEADER_FLAGS_7_MASK_PC_10 \<noteq> 0);
            ines2' = (masked (elementAt bs 7) HEADER_FLAGS_7_MASK_INES2 \<noteq> 0);
            mapperHi = push_bit 4 (masked (elementAt bs 7) HEADER_FLAGS_7_MASK_MAPPER_HI);
            prgRamSize' = push_bit 0 (masked (elementAt bs 8) HEADER_FLAGS_8_MASK_PRG_RAM_SIZE);
            tvSystemPal = (masked (elementAt bs 9) HEADER_FLAGS_9_MASK_TV_SYSTEM_PAL \<noteq> 0);
            tvSystemDual = (masked (elementAt bs 10) HEADER_FLAGS_10_MASK_TV_SYSTEM_DUAL \<noteq> 0);
            prgRam' = (masked (elementAt bs 10) HEADER_FLAGS_10_MASK_PRG_RAM \<noteq> 0);
            busConflicts' = (masked (elementAt bs 10) HEADER_FLAGS_10_MASK_BUS_CONFLICTS \<noteq> 0);
            mapper' = mapperLo OR mapperHi;
            mirror' = (if mirrorFourScreen then four else if mirrorVertical then vertical else horizontal);
            tvSystem' = (if tvSystemDual then dual else if tvSystemPal then pal else ntsc)
        in Inr \<lparr>prgSize = prgSize', chrSize = chrSize', battery = battery', trainer = trainer',
                vsUnisystem = vsUnisystem', pc10 = pc10', ines2 = ines2',
                prgRamSize = prgRamSize', prgRam = prgRam', busConflicts = busConflicts',
                mapper = mapper', mirror = mirror', tvSystem = tvSystem'\<rparr>)"

text \<open>A header of a cartridge with one PRG bank, one CHR bank and mapper 1 (MMC1).\<close>

definition mmc1_header :: "byte list" where
  "mmc1_header = [0x4E, 0x45, 0x53, 0x1A, 1, 1, 0x10, 0, 0, 0, 0, 0, 0, 0, 0, 0]"

section \<open>Colours (palette.ts, tile.ts)\<close>

definition SYSTEM_PALETTE_NTSC :: "int list" where
  "SYSTEM_PALETTE_NTSC =
    [0x656565, 0x002b9b, 0x110ec0, 0x3f00bc, 0x66008f, 0x7b0045, 0x790100, 0x601c00,
     0x363800, 0x084f00, 0x005a00, 0x005702, 0x004555, 0x000000, 0x000000, 0x000000,
     0xaeaeae, 0x0761f5, 0x3e3bff, 0x7c1dff, 0xaf0ee5, 0xcb1383, 0xc82a15, 0xa74d00,
     0x6f7200, 0x329100, 0x009f00, 0x009b2a, 0x008498, 0x000000, 0x000000, 0x000000,
     0xffffff, 0x56b1ff, 0x8e8bff, 0xcc6cff, 0xff5dff, 0xff62d4, 0xff7964, 0xf89d06,
     0xc0c300, 0x81e200, 0x4df116, 0x30ec7a, 0x34d5ea, 0x4e4e4e, 0x000000, 0x000000,
     0xffffff, 0xbadfff, 0xd1d0ff, 0xebc3ff, 0xffbdff, 0xffbfff, 0xffc8c0, 0xfcd799,
     0xe5e784, 0xccf387, 0xb6f9a0, 0xaaf8c9, 0xaceef7, 0xb7b7b7, 0x000000, 0x000000]"

text \<open>The fields \<^verbatim>\<open>r\<close>, \<^verbatim>\<open>g\<close> and \<^verbatim>\<open>b\<close> of \<^verbatim>\<open>Color\<close>.\<close>

record Color =
  colorR :: byte
  colorG :: byte
  colorB :: byte

text \<open>\<^verbatim>\<open>new Color(rgb)\<close>; an \<^verbatim>\<open>undefined\<close> argument (\<open>None\<close>) counts as 0 under \<^verbatim>\<open>&\<close>.\<close>

definition newColor :: "int option \<Rightarrow> Color" where
  "newColor rgb =
     (let v = (case rgb of None \<Rightarrow> 0 | Some x \<Rightarrow> x)
      in \<lparr>colorR = word_of_int (drop_bit 16 (v AND 0xff0000)),
          colorG = word_of_int (drop_bit 8 (v AND 0x00ff00)),
          colorB = word_of_int (v AND 0x0000ff)\<rparr>)"

text \<open>\<^verbatim>\<open>systemPalette[systemPaletteIndex]\<close>: \<^verbatim>\<open>undefined\<close> for an index that is
  \<^verbatim>\<open>undefined\<close> or past the 64 entries.\<close>

definition systemColor :: "int list \<Rightarrow> byte option \<Rightarrow> int option" where
  "systemColor systemPalette index =
     (case index of
        None \<Rightarrow> None
      | Some i \<Rightarrow> if unat i < length systemPalette then Some (systemPalette ! unat i) else None)"

text \<open>\<^verbatim>\<open>new Palette(systemPalette, systemPaletteIndexes)\<close> keeps the colours of its indexes.\<close>

definition Palette :: "int list \<Rightarrow> byte option list \<Rightarrow> Color list" where
  "Palette systemPalette systemPaletteIndexes =
     map (\<lambda>systemPaletteIndex. newColor (systemColor systemPalette systemPaletteIndex))
       systemPaletteIndexes"

text \<open>\<^verbatim>\<open>getColor(index)\<close> for a \<^verbatim>\<open>Tidbit\<close> index 0..3 of a palette of four colours.\<close>

definition getColor :: "Color list \<Rightarrow> nat \<Rightarrow> Color option" where
  "getColor colors index = (if index < length colors then Some (colors ! index) else None)"

definition TILE_WIDTH :: int where "TILE_WIDTH = 8"
definition TILE_HEIGHT :: int where "TILE_HEIGHT = 8"
definition TILE_BIT_PLANE_BYTES :: int where "TILE_BIT_PLANE_BYTES = 8"
definition TILE_BYTES :: int where "TILE_BYTES = 16"

section \<open>The picture processing unit (ppu.ts)\<close>

text \<open>
  \<^verbatim>\<open>PPU extends Addressable\<close> with the register file \<^verbatim>\<open>bytes\<close> (a \<^verbatim>\<open>Uint8Array\<close> of
  \<^verbatim>\<open>actualSize\<close> bytes), the counters, the frame buffer \<^verbatim>\<open>imageBytes\<close>, the VRAM address
  and its nullable latch (\<open>None\<close> is \<^verbatim>\<open>null\<close>), and the PPU bus.  The canvas is the list
  \<open>presented\<close> of the frames handed to \<^verbatim>\<open>ctx.putImageData\<close> by \<^verbatim>\<open>flush\<close>, most recent last.
\<close>

record ppu = memory +
  cycle :: int
  scanline :: int
  visibleX :: int
  visibleY :: int
  imageBytes :: "byte list"
  ppuBus :: "region bus"
  nametableStartAddress :: int
  nametableEndAddress :: int
  vramAddress :: int
  vramAddressLatch :: "byte option"
  lastCycleIsVBlank :: bool
  lastCycleIsVisible :: bool
  presented :: "byte list list"

definition CLOCK_OFFSET :: int where "CLOCK_OFFSET = 0"
definition CHR_START_ADDRESS :: int where "CHR_START_ADDRESS = 0x0000"
definition CHR_END_ADDRESS :: int where "CHR_END_ADDRESS = 0x1fff"
definition NAMETABLE_0_START_ADDRESS :: int where "NAMETABLE_0_START_ADDRESS = 0x2000"
definition NAMETABLE_0_END_ADDRESS :: int where "NAMETABLE_0_END_ADDRESS = 0x23ff"
definition NAMETABLE_1_START_ADDRESS :: int where "NAMETABLE_1_START_ADDRESS = 0x2400"
definition NAMETABLE_2_START_ADDRESS :: int where "NAMETABLE_2_START_ADDRESS = 0x2800"
definition NAMETABLE_3_START_ADDRESS :: int where "NAMETABLE_3_START_ADDRESS = 0x2c00"
definition NAMETABLE_3_END_ADDRESS :: int where "NAMETABLE_3_END_ADDRESS = 0x2fff"
definition NAMETABLE_MIRROR_END_ADDRESS :: int where "NAMETABLE_MIRROR_END_ADDRESS = 0x3eff"
definition NAMETABLE_ATTRIBUTE_OFFSET :: int where "NAMETABLE_ATTRIBUTE_OFFSET = 0x03c0"
definition PALETTE_START_ADDRESS :: int where "PALETTE_START_ADDRESS = 0x3f00"
definition PALETTE_END_ADDRESS :: int where "PALETTE_END_ADDRESS = 0x3f1f"
definition PALETTE_MIRROR_END_ADDRESS :: int where "PALETTE_MIRROR_END_ADDRESS = 0x3fff"
definition NAMETABLE_WIDTH :: int where "NAMETABLE_WIDTH = 32"
definition PATTERN_TABLE_0_START_ADDRESS :: int where "PATTERN_TABLE_0_START_ADDRESS = 0x0000"
definition BACKGROUND_COLOR_ADDRESS :: int where "BACKGROUND_COLOR_ADDRESS = 0x3f00"
definition BACKGROUND_PALETTE_0_ADDRESS :: int where "BACKGROUND_PALETTE_0_ADDRESS = 0x3f01"

definition REGISTER_START_ADDRESS :: int where "REGISTER_START_ADDRESS = 0x2000"
definition REGISTER_END_ADDRESS :: int where "REGISTER_END_ADDRESS = 0x2007"
definition REGISTER_MIRROR_END_ADDRESS :: int where "REGISTER_MIRROR_END_ADDRESS = 0x3fff"

definition REGISTER_PPUCTRL :: int where "REGISTER_PPUCTRL = 0x2000"
definition REGISTER_PPUMASK :: int where "REGISTER_PPUMASK = 0x2001"
definition REGISTER_PPUSTATUS :: int where "REGISTER_PPUSTATUS = 0x2002"
definition REGISTER_OAMADDR :: int where "REGISTER_OAMADDR = 0x2003"
definition REGISTER_OAMDATA :: int where "REGISTER_OAMDATA = 0x2004"
definition REGISTER_PPUSCROLL :: int where "REGISTER_PPUSCROLL = 0x2005"
definition REGISTER_PPUADDR :: int where "REGISTER_PPUADDR = 0x2006"
definition REGISTER_PPUDATA :: int where "REGISTER_PPUDATA = 0x2007"

definition STATUS_FLAG_BIT_PPUCTRL_NMI_ENABLE :: nat where "STATUS_FLAG_BIT_PPUCTRL_NMI_ENABLE = 7"
definition STATUS_FLAG_BIT_PPUCTRL_INCREMENT_MODE :: nat where "STATUS_FLAG_BIT_PPUCTRL_INCREMENT_MODE = 2"
definition STATUS_FLAG_BIT_PPUMASK_BACKGROUND_ENABLE :: nat where "STATUS_FLAG_BIT_PPUMASK_BACKGROUND_ENABLE = 3"
definition STATUS_FLAG_BIT_PPUSTATUS_VBLANK :: nat where "STATUS_FLAG_BIT_PPUSTATUS_VBLANK = 7"
definition STATUS_FLAG_BIT_PPUSTATUS_SPRITE_ZERO_HIT :: nat where "STATUS_FLAG_BIT_PPUSTATUS_SPRITE_ZERO_HIT = 6"
definition REGISTER_MASK_PPUCTRL_NAMETABLE_SELECT :: byte where "REGISTER_MASK_PPUCTRL_NAMETABLE_SELECT = 0x03"

definition DISPLAY_WIDTH :: int where "DISPLAY_WIDTH = 256"
definition DISPLAY_HEIGHT :: int where "DISPLAY_HEIGHT = 240"
definition NTSC_CYCLES_PER_SCANLINE :: int where "NTSC_CYCLES_PER_SCANLINE = 341"
definition NTSC_SCANLINES :: int where "NTSC_SCANLINES = 262"
definition NTSC_PRE_RENDER_SCANLINE :: int where "NTSC_PRE_RENDER_SCANLINE = 261"
definition NTSC_VBLANK_START_SCANLINE :: int where "NTSC_VBLANK_START_SCANLINE = 241"
definition NTSC_VBLANK_END_SCANLINE :: int where "NTSC_VBLANK_END_SCANLINE = 262"
definition NTSC_VBLANK_START_CYCLE :: int where "NTSC_VBLANK_START_CYCLE = 1"
definition NTSC_VBLANK_END_CYCLE :: int where "NTSC_VBLANK_END_CYCLE = 1"
definition NTSC_VISIBLE_START_SCANLINE :: int where "NTSC_VISIBLE_START_SCANLINE = 0"
definition NTSC_VISIBLE_END_SCANLINE :: int where "NTSC_VISIBLE_END_SCANLINE = 239"
definition NTSC_VISIBLE_START_CYCLE :: int where "NTSC_VISIBLE_START_CYCLE = 1"
definition NTSC_VISIBLE_END_CYCLE :: int where "NTSC_VISIBLE_END_CYCLE = 256"

text \<open>\<^verbatim>\<open>NAMETABLE_SELECT_TO_BASE_ADDRESS[n]\<close>; the key is \<^verbatim>\<open>registerPPUCTRL & 0b11\<close>, one
  of 0, 1, 2, 3.\<close>

definition NAMETABLE_SELECT_TO_BASE_ADDRESS :: "byte \<Rightarrow> int" where
  "NAMETABLE_SELECT_TO_BASE_ADDRESS n =
     (if n = 0 then NAMETABLE_0_START_ADDRESS
      else if n = 1 then NAMETABLE_1_START_ADDRESS
      else if n = 2 then NAMETABLE_2_START_ADDRESS
      else NAMETABLE_3_START_ADDRESS)"

text \<open>The constructor, for a given PPU bus; the canvas has not been drawn on.\<close>

definition newPPU :: "region bus \<Rightarrow> ppu" where
  "newPPU bus =
     \<lparr>startAddress = REGISTER_START_ADDRESS, endAddress = REGISTER_END_ADDRESS,
      mirrorEndAddress = REGISTER_MIRROR_END_ADDRESS,
      actualSize = REGISTER_END_ADDRESS - REGISTER_START_ADDRESS + 1,
      mirrorSize = REGISTER_MIRROR_END_ADDRESS - REGISTER_START_ADDRESS + 1,
      bytes = replicate 8 0,
      cycle = 0, scanline = 0, visibleX = 0, visibleY = 0,
      imageBytes = replicate (256 * 240 * 4) 0xff,
      ppuBus = bus,
      nametableStartAddress = NAMETABLE_0_START_ADDRESS,
      nametableEndAddress = NAMETABLE_0_END_ADDRESS,
      vramAddress = NAMETABLE_0_START_ADDRESS, vramAddressLatch = None,
      lastCycleIsVBlank = False, lastCycleIsVisible = False, presented = []\<rparr>"

subsection \<open>Registers and flags\<close>

definition getRegister :: "ppu \<Rightarrow> int \<Rightarrow> byte" where
  "getRegister p address =
     (let index = js_rem (address - startAddress p) (actualSize p)
      in byteAt (bytes p) index)"

definition setRegister :: "ppu \<Rightarrow> int \<Rightarrow> byte \<Rightarrow> ppu" where
  "setRegister p address v =
     (let index = js_rem (address - startAddress p) (actualSize p)
      in p\<lparr>bytes := storeAt (bytes p) index v\<rparr>)"

definition registerPPUCTRL :: "ppu \<Rightarrow> byte" where
  "registerPPUCTRL p = getRegister p REGISTER_PPUCTRL"
definition registerPPUMASK :: "ppu \<Rightarrow> byte" where
  "registerPPUMASK p = getRegister p REGISTER_PPUMASK"
definition registerPPUSTATUS :: "ppu \<Rightarrow> byte" where
  "registerPPUSTATUS p = getRegister p REGISTER_PPUSTATUS"
definition registerPPUADDR :: "ppu \<Rightarrow> byte" where
  "registerPPUADDR p = getRegister p REGISTER_PPUADDR"
definition registerPPUDATA :: "ppu \<Rightarrow> byte" where
  "registerPPUDATA p = getRegister p REGISTER_PPUDATA"

definition ppuctrlNMIEnable :: "ppu \<Rightarrow> nat" where
  "ppuctrlNMIEnable p = getBit (registerPPUCTRL p) STATUS_FLAG_BIT_PPUCTRL_NMI_ENABLE"
definition ppuctrlIncrementMode :: "ppu \<Rightarrow> nat" where
  "ppuctrlIncrementMode p = getBit (registerPPUCTRL p) STATUS_FLAG_BIT_PPUCTRL_INCREMENT_MODE"
definition ppuctrlNametableSelect :: "ppu \<Rightarrow> byte" where
  "ppuctrlNametableSelect p = registerPPUCTRL p AND REGISTER_MASK_PPUCTRL_NAMETABLE_SELECT"
definition ppumaskBackgroundEnable :: "ppu \<Rightarrow> nat" where
  "ppumaskBackgroundEnable p = getBit (registerPPUMASK p) STATUS_FLAG_BIT_PPUMASK_BACKGROUND_ENABLE"
definition ppustatusVBlank :: "ppu \<Rightarrow> nat" where
  "ppustatusVBlank p = getBit (registerPPUSTATUS p) STATUS_FLAG_BIT_PPUSTATUS_VBLANK"

definition set_ppustatusVBlank :: "ppu \<Rightarrow> bool \<Rightarrow> ppu" where
  "set_ppustatusVBlank p v =
     setRegister p REGISTER_PPUSTATUS
       (setBit (registerPPUSTATUS p) STATUS_FLAG_BIT_PPUSTATUS_VBLANK v)"

definition set_ppustatusSpriteZeroHit :: "ppu \<Rightarrow> bool \<Rightarrow> ppu" where
  "set_ppustatusSpriteZeroHit p v =
     setRegister p REGISTER_PPUSTATUS
       (setBit (registerPPUSTATUS p) STATUS_FLAG_BIT_PPUSTATUS_SPRITE_ZERO_HIT v)"

definition isVBlank :: "ppu \<Rightarrow> bool" where
  "isVBlank p = (scanline p \<ge> NTSC_VBLANK_START_SCANLINE \<and> scanline p \<le> NTSC_VBLANK_END_SCANLINE)"

definition isVisible :: "ppu \<Rightarrow> bool" where
  "isVisible p =
     (scanline p \<ge> NTSC_VISIBLE_START_SCANLINE \<and> scanline p \<le> NTSC_VISIBLE_END_SCANLINE \<and>
      cycle p \<ge> NTSC_VISIBLE_START_CYCLE \<and> cycle p \<le> NTSC_VISIBLE_END_CYCLE)"

subsection \<open>Access to the PPU bus\<close>

text \<open>
  \<^verbatim>\<open>this.ppuBus.read(address)\<close>: the value, \<open>None\<close> for \<^verbatim>\<open>undefined\<close>, and the PPU with
  the bus as the read left it.
\<close>

definition ppuBus_read :: "ppu \<Rightarrow> int \<Rightarrow> byte option \<times> ppu" where
  "ppuBus_read p address =
     (let (v, bus') = Bus_read regions (ppuBus p) address in (v, p\<lparr>ppuBus := bus'\<rparr>))"

definition ppuBus_write :: "ppu \<Rightarrow> int \<Rightarrow> byte \<Rightarrow> ppu" where
  "ppuBus_write p address v = p\<lparr>ppuBus := Bus_write regions (ppuBus p) address v\<rparr>"

text \<open>A value stored into the \<^verbatim>\<open>Uint8Array\<close> of registers: \<^verbatim>\<open>undefined\<close> is stored as 0.\<close>

definition toUint8 :: "byte option \<Rightarrow> byte" where
  "toUint8 v = (case v of None \<Rightarrow> 0 | Some x \<Rightarrow> x)"

definition generateNMI :: "ppu \<Rightarrow> ppu" where
  "generateNMI p = p\<lparr>ppuBus := Bus_emit (ppuBus p) ''nmi''\<rparr>"

subsection \<open>The register file seen from the CPU\<close>

text \<open>
  \<^verbatim>\<open>if (this.vramAddressLatch)\<close> tests the latch for truthiness: \<^verbatim>\<open>null\<close> is falsy, and
  so is the number 0.  In \<^verbatim>\<open>latch << 8\<close> a \<^verbatim>\<open>null\<close> counts as 0.
\<close>

definition truthy :: "byte option \<Rightarrow> bool" where
  "truthy v = (case v of None \<Rightarrow> False | Some x \<Rightarrow> x \<noteq> 0)"

definition toInt32 :: "byte option \<Rightarrow> int" where
  "toInt32 v = (case v of None \<Rightarrow> 0 | Some x \<Rightarrow> uint x)"

definition PPU_read :: "ppu \<Rightarrow> int \<Rightarrow> byte \<times> ppu" where
  "PPU_read p address =
     (let baseAddress = rem_const address REGISTER_START_ADDRESS + REGISTER_START_ADDRESS
      in if baseAddress = REGISTER_PPUSTATUS then
           let v = (0xE0 AND registerPPUSTATUS p) + (0x1F AND registerPPUDATA p);
               p1 = set_ppustatusVBlank p False;
               p2 = p1\<lparr>vramAddressLatch := None\<rparr>
           in (v, p2)
         else if baseAddress = REGISTER_PPUDATA then
           let v = registerPPUDATA p;
               (fetched, p1) = ppuBus_read p (vramAddress p);
               p2 = setRegister p1 REGISTER_PPUDATA (toUint8 fetched);
               v' = (if address \<ge> PALETTE_START_ADDRESS then registerPPUDATA p2 else v);
               p3 = p2\<lparr>vramAddress := vramAddress p2 + (if ppuctrlIncrementMode p2 \<noteq> 0 then 32 else 1)\<rparr>
           in (v', p3)
         else (0x00, p))"

definition PPU_write :: "ppu \<Rightarrow> int \<Rightarrow> byte \<Rightarrow> ppu" where
  "PPU_write p address v =
     (let baseAddress = rem_const address REGISTER_START_ADDRESS + REGISTER_START_ADDRESS
      in if baseAddress = REGISTER_PPUCTRL then
           let previousPPUCTRLNametableSelect = ppuctrlNametableSelect p;
               p1 = setRegister p REGISTER_PPUCTRL v;
               p2 = (if ppuctrlNMIEnable p1 \<noteq> 0 \<and> ppustatusVBlank p1 \<noteq> 0 then generateNMI p1 else p1);
               baseNametableAddress = NAMETABLE_SELECT_TO_BASE_ADDRESS (ppuctrlNametableSelect p2)
           in if ppuctrlNametableSelect p2 \<noteq> previousPPUCTRLNametableSelect
              then p2\<lparr>vramAddress := baseNametableAddress\<rparr>
              else p2
         else if baseAddress = REGISTER_PPUMASK then
           setRegister p REGISTER_PPUMASK v
         else if baseAddress = REGISTER_PPUADDR then
           let p1 = setRegister p REGISTER_PPUADDR v
           in if truthy (vramAddressLatch p1)
              then p1\<lparr>vramAddress := push_bit 8 (toInt32 (vramAddressLatch p1)) + uint v,
                      vramAddressLatch := None\<rparr>
              else p1\<lparr>vramAddressLatch := Some v\<rparr>
         else if baseAddress = REGISTER_PPUDATA then
           let p1 = setRegister p REGISTER_PPUDATA v;
               p2 = ppuBus_write p1 (vramAddress p1) v
           in p2\<lparr>vramAddress := vramAddress p2 + (if ppuctrlIncrementMode p2 \<noteq> 0 then 32 else 1)\<rparr>
         else p)"

subsection \<open>Drawing a dot\<close>

text \<open>A store into the \<^verbatim>\<open>Uint8ClampedArray\<close> of the frame buffer.\<close>

definition setImageByte :: "ppu \<Rightarrow> int \<Rightarrow> byte \<Rightarrow> ppu" where
  "setImageByte p index v = p\<lparr>imageBytes := storeAt (imageBytes p) (Some index) v\<rparr>"

text \<open>
  Where the source goes on with \<^verbatim>\<open><<\<close> or \<^verbatim>\<open>getBit\<close> on a byte read from the PPU bus,
  \<^verbatim>\<open>undefined\<close> counts as 0 (\<open>toUint8\<close>); as an index into the system palette it
  stays \<^verbatim>\<open>undefined\<close>.  The tile geometry of \<^verbatim>\<open>Tile\<close> is 8 by 8 dots, 8 bytes a plane.
  The pixel value is at most 3 and the palette has four colours, so \<^verbatim>\<open>getColor\<close> always
  finds one.
\<close>

definition getPalette :: "ppu \<Rightarrow> int \<Rightarrow> int \<Rightarrow> int \<Rightarrow> Color list \<times> ppu" where
  "getPalette p nametableY nametableX basePaletteAddress =
     (let nametableStartAddress = NAMETABLE_SELECT_TO_BASE_ADDRESS (ppuctrlNametableSelect p);
          attributeTableY = drop_bit 2 nametableY;
          attributeTableX = drop_bit 2 nametableX;
          attributeTableEntryIndex = push_bit 3 attributeTableY + attributeTableX;
          attributeTableEntryAddress =
            nametableStartAddress + NAMETABLE_ATTRIBUTE_OFFSET + attributeTableEntryIndex;
          (entry, p1) = ppuBus_read p attributeTableEntryAddress;
          attributeTableEntry = toUint8 entry;
          isTopQuadrant = (rem_const nametableY 2 = 0);
          isLeftQuadrant = (rem_const nametableX 2 = 0);
          (paletteIndexLo, paletteIndexHi) =
            (if isTopQuadrant then
               (if isLeftQuadrant
                then (getBit attributeTableEntry 0, getBit attributeTableEntry 1)
                else (getBit attributeTableEntry 2, getBit attributeTableEntry 3))
             else
               (if isLeftQuadrant
                then (getBit attributeTableEntry 4, getBit attributeTableEntry 5)
                else (getBit attributeTableEntry 6, getBit attributeTableEntry 7)));
          paletteIndex = push_bit 1 (int paletteIndexHi) OR int paletteIndexLo;
          paletteAddress = basePaletteAddress + push_bit 2 paletteIndex;
          (c0, p2) = ppuBus_read p1 BACKGROUND_COLOR_ADDRESS;
          (c1, p3) = ppuBus_read p2 paletteAddress;
          (c2, p4) = ppuBus_read p3 (paletteAddress + 1);
          (c3, p5) = ppuBus_read p4 (paletteAddress + 2)
      in (Palette SYSTEM_PALETTE_NTSC [c0, c1, c2, c3], p5))"

definition drawBackground :: "ppu \<Rightarrow> ppu" where
  "drawBackground p =
     (let nametableY = drop_bit 3 (visibleY p);
          nametableX = drop_bit 3 (visibleX p);
          nametableEntryIndex = nametableY * NAMETABLE_WIDTH + nametableX;
          nametableStartAddress = NAMETABLE_SELECT_TO_BASE_ADDRESS (ppuctrlNametableSelect p);
          nametableEntryAddress = nametableStartAddress + nametableEntryIndex;
          (entry, p1) = ppuBus_read p nametableEntryAddress;
          tileOffset = push_bit 4 (uint (toUint8 entry));
          tileAddress = PATTERN_TABLE_0_START_ADDRESS + tileOffset;
          (palette, p2) = getPalette p1 nametableY nametableX BACKGROUND_PALETTE_0_ADDRESS;
          tileY = rem_const (visibleY p2) TILE_HEIGHT;
          tileX = rem_const (visibleX p2) TILE_WIDTH;
          (tileLo, p3) = ppuBus_read p2 (tileAddress + tileY);
          (tileHi, p4) = ppuBus_read p3 (tileAddress + tileY + TILE_BIT_PLANE_BYTES);
          tilePixel = push_bit 1 (getBit (toUint8 tileHi) (nat (7 - tileX)))
                        OR getBit (toUint8 tileLo) (nat (7 - tileX));
          imageDataRowOffset = push_bit 8 (visibleY p4);
          imageDataColumnOffset = visibleX p4;
          imageDataIndex = (imageDataRowOffset + imageDataColumnOffset) * 4
      in case getColor palette tilePixel of
           None \<Rightarrow> p4
         | Some color \<Rightarrow>
             setImageByte
               (setImageByte (setImageByte p4 imageDataIndex (colorR color))
                  (imageDataIndex + 1) (colorG color))
               (imageDataIndex + 2) (colorB color))"

definition flush :: "ppu \<Rightarrow> ppu" where
  "flush p = p\<lparr>presented := presented p @ [imageBytes p]\<rparr>"

subsection \<open>The dot clock\<close>

definition PPU_reset :: "ppu \<Rightarrow> ppu" where
  "PPU_reset p = p\<lparr>cycle := 0, scanline := 0, visibleX := 0, visibleY := 0\<rparr>"

definition execute :: "ppu \<Rightarrow> ppu" where
  "execute p =
     (let p1 = (if isVisible p then
                  let q = p\<lparr>visibleX := cycle p - NTSC_VISIBLE_START_CYCLE, visibleY := scanline p\<rparr>
                  in if ppumaskBackgroundEnable q \<noteq> 0 then drawBackground q else q
                else p);
          p2 = (if scanline p1 = NTSC_PRE_RENDER_SCANLINE \<and> cycle p1 = 0
                then set_ppustatusSpriteZeroHit p1 False else p1);
          p3 = (if scanline p2 = NTSC_VISIBLE_START_SCANLINE \<and> cycle p2 = NTSC_VISIBLE_START_CYCLE
                then set_ppustatusSpriteZeroHit p2 True else p2);
          p4 = (if scanline p3 = NTSC_VBLANK_START_SCANLINE \<and> cycle p3 = NTSC_VBLANK_START_CYCLE
                then let q1 = set_ppustatusVBlank p3 True;
                         q2 = (if ppuctrlNMIEnable q1 \<noteq> 0 then generateNMI q1 else q1)
                     in flush q2
                else p3);
          p5 = (if scanline p4 = NTSC_VBLANK_END_SCANLINE \<and> cycle p4 = NTSC_VBLANK_END_CYCLE
                then set_ppustatusVBlank p4 False else p4)
      in p5)"

definition PPU_tick :: "ppu \<Rightarrow> ppu" where
  "PPU_tick p =
     (let p1 = execute p;
          p2 = p1\<lparr>lastCycleIsVBlank := isVBlank p1, lastCycleIsVisible := isVisible p1\<rparr>;
          p3 = p2\<lparr>cycle := cycle p2 + 1\<rparr>
      in if cycle p3 \<ge> NTSC_CYCLES_PER_SCANLINE then
           let p4 = p3\<lparr>cycle := 0, scanline := scanline p3 + 1\<rparr>
           in if scanline p4 \<ge> NTSC_SCANLINES then p4\<lparr>scanline := 0\<rparr> else p4
         else p3)"

text \<open>\<open>n\<close> ticks of the PPU with no access by the CPU in between.\<close>

fun PPU_ticks :: "nat \<Rightarrow> ppu \<Rightarrow> ppu" where
  "PPU_ticks 0 p = p"
| "PPU_ticks (Suc n) p = PPU_ticks n (PPU_tick p)"

subsection \<open>The PPU bus of the console and states for the examples\<close>

text \<open>
  The constructor of \<^verbatim>\<open>NES\<close> builds \<^verbatim>\<open>chr = new ROM(0x0000, 0x1fff)\<close>,
  \<^verbatim>\<open>vram = new RAM(0x2000, 0x2fff, 0x3eff)\<close>, \<^verbatim>\<open>paletteRAM = new RAM(0x3f00, 0x3f1f, 0x3fff)\<close>
  and \<^verbatim>\<open>ppuBus = new Bus([chr, vram, paletteRAM])\<close>.
\<close>

definition NES_ppuBus :: "region bus option" where
  "NES_ppuBus =
     (case newMemory CHR_START_ADDRESS CHR_END_ADDRESS None of
        None \<Rightarrow> None
      | Some chr \<Rightarrow>
     (case newMemory NAMETABLE_0_START_ADDRESS NAMETABLE_3_END_ADDRESS
             (Some NAMETABLE_MIRROR_END_ADDRESS) of
        None \<Rightarrow> None
      | Some vram \<Rightarrow>
     (case newMemory PALETTE_START_ADDRESS PALETTE_END_ADDRESS
             (Some PALETTE_MIRROR_END_ADDRESS) of
        None \<Rightarrow> None
      | Some paletteRAM \<Rightarrow> Some (Bus regions [ROM chr, RAM vram, RAM paletteRAM]))))"

text \<open>The value of that bus, sorted high to low.\<close>

definition chr0 :: memory where
  "chr0 = \<lparr>startAddress = 0, endAddress = 0x1fff, mirrorEndAddress = 0x1fff,
            actualSize = 8192, mirrorSize = 8192, bytes = replicate 8192 0\<rparr>"

definition vram0 :: memory where
  "vram0 = \<lparr>startAddress = 0x2000, endAddress = 0x2fff, mirrorEndAddress = 0x3eff,
             actualSize = 4096, mirrorSize = 7936, bytes = replicate 4096 0\<rparr>"

definition paletteRAM0 :: memory where
  "paletteRAM0 = \<lparr>startAddress = 0x3f00, endAddress = 0x3f1f, mirrorEndAddress = 0x3fff,
                   actualSize = 32, mirrorSize = 256, bytes = replicate 32 0\<rparr>"

definition ppuBus0 :: "region bus" where
  "ppuBus0 = \<lparr>addressables = [RAM paletteRAM0, RAM vram0, ROM chr0], emitted = []\<rparr>"

text \<open>A register file as the constructor of \<^verbatim>\<open>PPU\<close> lays it out: eight bytes at 0x2000.\<close>

definition registerFile :: "ppu \<Rightarrow> bool" where
  "registerFile p =
     (startAddress p = REGISTER_START_ADDRESS \<and> actualSize p = 8 \<and> length (bytes p) = 8)"

text \<open>The PPU of the console as constructed, and the same during vertical blank.\<close>

definition ppu0 :: ppu where
  "ppu0 = newPPU ppuBus0"

definition ppu0_vblank :: ppu where
  "ppu0_vblank = set_ppustatusVBlank ppu0 True"

text \<open>
  The CPU stores 0x22 and 0x33 into the palette entries 0x3F00 and 0x3F01 and points
  the VRAM address back at 0x3F00.
\<close>

definition ppu_palette_written :: ppu where
  "ppu_palette_written =
     PPU_write (PPU_write (PPU_write (PPU_write (PPU_write (PPU_write ppu0
       0x2006 0x3F) 0x2006 0x00) 0x2007 0x22) 0x2007 0x33) 0x2006 0x3F) 0x2006 0x00"

section \<open>The clock (clock.ts)\<close>

text \<open>
  A tick callback is a closure over the component it drives; here it is a function on
  the state \<open>'w\<close> of whatever the callbacks act on.  \<^verbatim>\<open>cyclesRemaining\<close> is a number and
  is NaN (\<open>None\<close>) exactly when a remainder by a zero divider was taken.
\<close>

record 'w tickCallback =
  callback :: "'w \<Rightarrow> 'w"
  divider :: int
  cyclesRemaining :: "int option"

record 'w clock =
  isRunning :: bool
  yieldInterval :: int
  yieldDelay :: int
  tickCallbacks :: "'w tickCallback list"

definition Clock :: "int \<Rightarrow> int \<Rightarrow> 'w clock" where
  "Clock interval delay =
     \<lparr>isRunning = False, yieldInterval = interval, yieldDelay = delay, tickCallbacks = []\<rparr>"

text \<open>\<^verbatim>\<open>addTickCallback(callback, divider, offset)\<close>; \<^verbatim>\<open>offset || 0\<close> is \<open>offset\<close> on integers.\<close>

definition addTickCallback ::
  "'w clock \<Rightarrow> ('w \<Rightarrow> 'w) \<Rightarrow> int \<Rightarrow> int \<Rightarrow> 'w clock" where
  "addTickCallback c f d offset =
     c\<lparr>tickCallbacks := tickCallbacks c @
          [\<lparr>callback = f, divider = d, cyclesRemaining = js_rem (d + offset) d\<rparr>]\<rparr>"

text \<open>
  The body of the loop of \<^verbatim>\<open>step\<close>, on one callback: it is called when
  \<^verbatim>\<open>cyclesRemaining <= 0\<close> (false for NaN), then the counter becomes
  \<^verbatim>\<open>(divider + cyclesRemaining - 1) % divider\<close>.
\<close>

definition isDue :: "'w tickCallback \<Rightarrow> bool" where
  "isDue t = (case cyclesRemaining t of None \<Rightarrow> False | Some n \<Rightarrow> n \<le> 0)"

definition countDown :: "'w tickCallback \<Rightarrow> 'w tickCallback" where
  "countDown t =
     t\<lparr>cyclesRemaining :=
          (case cyclesRemaining t of
             None \<Rightarrow> None
           | Some n \<Rightarrow> js_rem (divider t + n - 1) (divider t))\<rparr>"

fun stepCallbacks :: "'w tickCallback list \<Rightarrow> 'w \<Rightarrow> 'w tickCallback list \<times> 'w" where
  "stepCallbacks [] w = ([], w)"
| "stepCallbacks (t # ts) w =
     (let w1 = (if isDue t then callback t w else w);
          (ts', w2) = stepCallbacks ts w1
      in (countDown t # ts', w2))"

definition Clock_step :: "'w clock \<Rightarrow> 'w \<Rightarrow> 'w clock \<times> 'w" where
  "Clock_step c w =
     (let (ts, w') = stepCallbacks (tickCallbacks c) w in (c\<lparr>tickCallbacks := ts\<rparr>, w'))"

text \<open>\<open>n\<close> calls of \<^verbatim>\<open>step\<close> in a row, as the batch loop of \<^verbatim>\<open>tick\<close> makes them.\<close>

fun Clock_steps :: "nat \<Rightarrow> 'w clock \<Rightarrow> 'w \<Rightarrow> 'w clock \<times> 'w" where
  "Clock_steps 0 c w = (c, w)"
| "Clock_steps (Suc n) c w = (let (c', w') = Clock_step c w in Clock_steps n c' w')"

text \<open>
  The wiring in the constructor of \<^verbatim>\<open>NES\<close>: the CPU first with divider 3, then the PPU
  with divider 1 and offset \<^verbatim>\<open>PPU.CLOCK_OFFSET = 0\<close>.
\<close>

definition NES_clock :: "('w \<Rightarrow> 'w) \<Rightarrow> ('w \<Rightarrow> 'w) \<Rightarrow> 'w clock" where
  "NES_clock cpuTick ppuTick =
     addTickCallback (addTickCallback (Clock 200000 0) cpuTick 3 0) ppuTick 1 CLOCK_OFFSET"

text \<open>Callbacks that only record who was called, in order.\<close>

datatype component = CPU_called | PPU_called

definition logCPU :: "component list \<Rightarrow> component list" where
  "logCPU w = w @ [CPU_called]"

definition logPPU :: "component list \<Rightarrow> component list" where
  "logPPU w = w @ [PPU_called]"

text \<open>
  Names for the proofs: the clock of the console with the logging callbacks when the
  CPU's counter is \<open>n\<close>, and what \<open>n\<close> steps of that clock append to the log when
  \<open>k\<close> steps were made before.
\<close>

definition wired :: "int \<Rightarrow> component list clock" where
  "wired n = \<lparr>isRunning = False, yieldInterval = 200000, yieldDelay = 0,
     tickCallbacks = [\<lparr>callback = logCPU, divider = 3, cyclesRemaining = Some n\<rparr>,
                      \<lparr>callback = logPPU, divider = 1, cyclesRemaining = Some 0\<rparr>]\<rparr>"

fun seg :: "nat \<Rightarrow> nat \<Rightarrow> component list" where
  "seg k 0 = []"
| "seg k (Suc n) = seg k n @ (if (k + n) mod 3 = 0 then [CPU_called, PPU_called] else [PPU_called])"

section \<open>The devices on the CPU bus (controller.ts, apu.ts, io.ts)\<close>

record controller = addressable +
  currentIndex :: int
  statusRight :: bool
  statusLeft :: bool
  statusDown :: bool
  statusUp :: bool
  statusStart :: bool
  statusSelect :: bool
  statusB :: bool
  statusA :: bool

definition newController :: "int \<Rightarrow> int \<Rightarrow> controller" where
  "newController s e =
     addressable.extend (Addressable s e None)
       (controller.fields 0 False False False False False False False False)"

text \<open>\<^verbatim>\<open>Controller.read\<close>: the button selected by \<^verbatim>\<open>currentIndex\<close> in bit 0, then the index
  moves on.  \<^verbatim>\<open>Controller\<close> does not override \<^verbatim>\<open>write\<close>.\<close>

definition Controller_read :: "controller \<Rightarrow> int \<Rightarrow> byte \<times> controller" where
  "Controller_read c address =
     (let pressed =
            (if currentIndex c = 7 then statusRight c
             else if currentIndex c = 6 then statusLeft c
             else if currentIndex c = 5 then statusDown c
             else if currentIndex c = 4 then statusUp c
             else if currentIndex c = 3 then statusStart c
             else if currentIndex c = 2 then statusSelect c
             else if currentIndex c = 1 then statusB c
             else if currentIndex c = 0 then statusA c
             else False);
          result = (0x00 :: byte) OR (if pressed then 0x01 else 0x00)
      in (result, c\<lparr>currentIndex := rem_const (currentIndex c + 1) 8\<rparr>))"

text \<open>
  What the constructor of \<^verbatim>\<open>NES\<close> puts on the CPU bus: the RAM and the program ROM, the
  APU and the disabled I/O range (both plain \<^verbatim>\<open>Addressable\<close>s), two controllers and the
  PPU.
\<close>

datatype device = Region region | Controller controller | PPU ppu

fun device_start :: "device \<Rightarrow> int" where
  "device_start (Region x) = region_start x"
| "device_start (Controller c) = startAddress c"
| "device_start (PPU p) = startAddress p"

fun device_read :: "device \<Rightarrow> int \<Rightarrow> byte \<times> device" where
  "device_read (Region x) address = (let (v, x') = region_read x address in (v, Region x'))"
| "device_read (Controller c) address =
     (let (v, c') = Controller_read c address in (v, Controller c'))"
| "device_read (PPU p) address = (let (v, p') = PPU_read p address in (v, PPU p'))"

fun device_write :: "device \<Rightarrow> int \<Rightarrow> byte \<Rightarrow> device" where
  "device_write (Region x) address v = Region (region_write x address v)"
| "device_write (Controller c) address v = Controller c"
| "device_write (PPU p) address v = PPU (PPU_write p address v)"

definition devices :: "device addressable_class" where
  "devices = \<lparr>startAddressOf = device_start, readOf = device_read, writeOf = device_write\<rparr>"

section \<open>The CPU (cpu.ts)\<close>

text \<open>
  The registers \<^verbatim>\<open>a\<close>, \<^verbatim>\<open>x\<close>, \<^verbatim>\<open>y\<close>, \<^verbatim>\<open>p\<close>, \<^verbatim>\<open>sp\<close> and \<^verbatim>\<open>_pc\<close> are the fields \<open>regA\<close>, ...,
  \<open>regPC\<close>.  The byte registers are masked with \<^verbatim>\<open>0xff\<close> wherever the source computes
  them and are 8-bit words; the program counter is an integer, masked where the source
  masks it.  The debug log and the opcode counters are not part of the state.
\<close>

record cpu =
  cpuBus :: "device bus"
  cyclesRemaining :: int
  additionalCycles :: int
  pendingIRQ :: bool
  pendingNMI :: bool
  regA :: byte
  regX :: byte
  regY :: byte
  regP :: byte
  regSP :: byte
  regPC :: int

datatype cpu_error = TypeError

definition STACK_PAGE :: int where "STACK_PAGE = 0x01"
definition STATUS_FLAG_BIT_NEGATIVE :: nat where "STATUS_FLAG_BIT_NEGATIVE = 7"
definition STATUS_FLAG_BIT_OVERFLOW :: nat where "STATUS_FLAG_BIT_OVERFLOW = 6"
definition STATUS_FLAG_BIT_INTERRUPT_DISABLE :: nat where "STATUS_FLAG_BIT_INTERRUPT_DISABLE = 2"
definition STATUS_FLAG_BIT_ZERO :: nat where "STATUS_FLAG_BIT_ZERO = 1"
definition STATUS_FLAG_BIT_CARRY :: nat where "STATUS_FLAG_BIT_CARRY = 0"

text \<open>
  The constructor subscribes \<^verbatim>\<open>() => this.generateNMI()\<close> to \<open>nmi\<close> on the PPU bus, and
  \<^verbatim>\<open>emit\<close> calls the listeners at once.  The PPU bus belongs to the PPU on the CPU bus, so
  an access of the CPU to its bus sets \<^verbatim>\<open>pendingNMI\<close> when the access made the PPU emit.
\<close>

fun nmiEmitted :: "device list \<Rightarrow> nat" where
  "nmiEmitted [] = 0"
| "nmiEmitted (PPU p # ds) = count_list (emitted (ppuBus p)) ''nmi'' + nmiEmitted ds"
| "nmiEmitted (d # ds) = nmiEmitted ds"

definition listen :: "cpu \<Rightarrow> device bus \<Rightarrow> cpu" where
  "listen s bus' =
     (let heard = (nmiEmitted (addressables (cpuBus s)) < nmiEmitted (addressables bus'))
      in s\<lparr>cpuBus := bus', pendingNMI := (pendingNMI s \<or> heard)\<rparr>)"

text \<open>\<^verbatim>\<open>this.cpuBus.read(address)\<close> and \<^verbatim>\<open>this.cpuBus.write(address, byte)\<close>.\<close>

definition cpuBus_read :: "cpu \<Rightarrow> int \<Rightarrow> byte option \<times> cpu" where
  "cpuBus_read s address =
     (let (v, bus') = Bus_read devices (cpuBus s) address in (v, listen s bus'))"

definition cpuBus_write :: "cpu \<Rightarrow> int \<Rightarrow> byte \<Rightarrow> cpu" where
  "cpuBus_write s address v = listen s (Bus_write devices (cpuBus s) address v)"

text \<open>
  The setter of \<^verbatim>\<open>pc\<close> reads the opcode at the old \<^verbatim>\<open>_pc\<close> and calls \<^verbatim>\<open>debug\<close>, which reads
  the bus at \<^verbatim>\<open>pc\<close>, \<^verbatim>\<open>pc + 1\<close> and \<^verbatim>\<open>pc + 2\<close> and formats each byte with
  \<^verbatim>\<open>value.toString(16)\<close>: a TypeError when the bus answered \<^verbatim>\<open>undefined\<close>.  Then \<^verbatim>\<open>_pc\<close> is
  assigned.
\<close>

definition set_pc :: "cpu \<Rightarrow> int \<Rightarrow> cpu_error + cpu" where
  "set_pc s v =
     (let (pcValue, s1) = cpuBus_read s (regPC s);
          (opcodeByte, s2) = cpuBus_read s1 (regPC s1)
      in case opcodeByte of
           None \<Rightarrow> Inl TypeError
         | Some _ \<Rightarrow>
             (let (operandLo, s3) = cpuBus_read s2 (regPC s2 + 1)
              in case operandLo of
                   None \<Rightarrow> Inl TypeError
                 | Some _ \<Rightarrow>
                     (let (operandHi, s4) = cpuBus_read s3 (regPC s3 + 2)
                      in case operandHi of
                           None \<Rightarrow> Inl TypeError
                         | Some _ \<Rightarrow> Inr (s4\<lparr>regPC := v\<rparr>))))"

definition getStatusFlag :: "cpu \<Rightarrow> nat \<Rightarrow> nat" where
  "getStatusFlag s index = getBit (regP s) index"

definition setStatusFlag :: "cpu \<Rightarrow> nat \<Rightarrow> bool \<Rightarrow> cpu" where
  "setStatusFlag s index v = s\<lparr>regP := setBit (regP s) index v\<rparr>"

definition statusCarry :: "cpu \<Rightarrow> nat" where
  "statusCarry s = getStatusFlag s STATUS_FLAG_BIT_CARRY"

definition updateStatusNegative :: "cpu \<Rightarrow> byte \<Rightarrow> cpu" where
  "updateStatusNegative s v = setStatusFlag s STATUS_FLAG_BIT_NEGATIVE (v AND push_bit 7 1 \<noteq> 0)"

definition updateStatusZero :: "cpu \<Rightarrow> byte \<Rightarrow> cpu" where
  "updateStatusZero s v = setStatusFlag s STATUS_FLAG_BIT_ZERO (v = 0x00)"

definition pushStack :: "cpu \<Rightarrow> byte \<Rightarrow> cpu" where
  "pushStack s v =
     (let addressLo = uint (regSP s);
          addressHi = push_bit 8 STACK_PAGE;
          address = addressHi OR addressLo;
          s1 = cpuBus_write s address v
      in s1\<lparr>regSP := word_of_int (0xff AND (uint (regSP s1) - 1))\<rparr>)"

definition pullStack :: "cpu \<Rightarrow> byte option \<times> cpu" where
  "pullStack s =
     (let s1 = s\<lparr>regSP := word_of_int (0xff AND (uint (regSP s) + 1))\<rparr>;
          addressLo = uint (regSP s1);
          addressHi = push_bit 8 STACK_PAGE;
          address = addressHi OR addressLo
      in cpuBus_read s1 address)"

definition getAddressImm :: "cpu \<Rightarrow> int" where
  "getAddressImm s = 0xffff AND (regPC s + 1)"

text \<open>
  \<^verbatim>\<open>adc_imm\<close>.  An operand that is \<^verbatim>\<open>undefined\<close> makes the sum NaN (\<open>None\<close>); NaN and
  \<^verbatim>\<open>undefined\<close> count as 0 under \<^verbatim>\<open>&\<close> and \<^verbatim>\<open>^\<close>, and \<^verbatim>\<open>NaN > 0xff\<close> is false.
\<close>

definition adc_imm :: "cpu \<Rightarrow> cpu_error + cpu" where
  "adc_imm s =
     (let (memory, s1) = cpuBus_read s (getAddressImm s);
          oldA = uint (regA s1);
          intermediateA =
            (case memory of None \<Rightarrow> None | Some m \<Rightarrow> Some (oldA + uint m + int (statusCarry s1)));
          newA = 0xff AND (case intermediateA of None \<Rightarrow> 0 | Some i \<Rightarrow> i);
          s2 = s1\<lparr>regA := word_of_int newA\<rparr>;
          s3 = setStatusFlag s2 STATUS_FLAG_BIT_CARRY
                 (case intermediateA of None \<Rightarrow> False | Some i \<Rightarrow> i > 0xff);
          s4 = setStatusFlag s3 STATUS_FLAG_BIT_OVERFLOW
                 ((NOT (oldA XOR toInt32 memory)
                     AND (oldA XOR (case intermediateA of None \<Rightarrow> 0 | Some i \<Rightarrow> i)))
                   AND push_bit 7 1 \<noteq> 0);
          s5 = updateStatusNegative s4 (word_of_int newA);
          s6 = updateStatusZero s5 (word_of_int newA)
      in case set_pc s6 (0xffff AND (regPC s6 + 2)) of
           Inl e \<Rightarrow> Inl e
         | Inr s7 \<Rightarrow> Inr (s7\<lparr>cyclesRemaining := 2\<rparr>))"

text \<open>\<^verbatim>\<open>rti\<close>.  A pulled \<^verbatim>\<open>undefined\<close> counts as 0 in \<^verbatim>\<open>setBit\<close>, \<^verbatim>\<open><<\<close> and \<^verbatim>\<open>|\<close>.\<close>

definition rti :: "cpu \<Rightarrow> cpu_error + cpu" where
  "rti s =
     (let (newP, s1) = pullStack s;
          (returnAddressLo, s2) = pullStack s1;
          (hi, s3) = pullStack s2;
          returnAddressHi = push_bit 8 (toInt32 hi);
          returnAddress = toInt32 returnAddressLo OR returnAddressHi;
          s4 = s3\<lparr>regP := toUint8 newP\<rparr>;
          s5 = setStatusFlag s4 STATUS_FLAG_BIT_INTERRUPT_DISABLE False
      in case set_pc s5 returnAddress of
           Inl e \<Rightarrow> Inl e
         | Inr s6 \<Rightarrow> Inr (s6\<lparr>cyclesRemaining := 6\<rparr>))"

subsection \<open>Conditions on the CPU bus, and the bus of the console\<close>

text \<open>
  The stack page 0x0100..0x01FF is RAM: the first region of the bus that starts at or
  below 0x01FF is a RAM that starts at or below 0x0100, whose \<^verbatim>\<open>actualSize\<close> reaches past
  the page (no two stack addresses share a byte) and whose buffer has that many bytes.
\<close>

definition stackInRAM :: "device bus \<Rightarrow> bool" where
  "stackInRAM bus =
     (case find (\<lambda>d. device_start d \<le> 0x1ff) (addressables bus) of
        Some (Region (RAM m)) \<Rightarrow>
          startAddress m \<le> 0x100 \<and> 0x200 - startAddress m \<le> actualSize m \<and>
          actualSize m \<le> int (length (bytes m))
      | _ \<Rightarrow> False)"

text \<open>Some region of the bus starts at or below the address: a read there has a value.\<close>

definition mappedAt :: "device bus \<Rightarrow> int \<Rightarrow> bool" where
  "mappedAt bus address = list_ex (\<lambda>d. device_start d \<le> address) (addressables bus)"

text \<open>
  The CPU bus of the console, \<^verbatim>\<open>new Bus([ram, ppu, apu, controller1, controller2,
  disabledIO, prg])\<close>, sorted high to low, with the regions as constructed.
\<close>

definition ram0 :: memory where
  "ram0 = \<lparr>startAddress = 0x0000, endAddress = 0x07ff, mirrorEndAddress = 0x1fff,
            actualSize = 2048, mirrorSize = 8192, bytes = replicate 2048 0\<rparr>"

definition cpuBus0 :: "device bus" where
  "cpuBus0 =
     \<lparr>addressables =
        [Region (ROM NES_prg_rom),
         Region (Plain (Addressable 0x4018 0x401f None)),
         Controller (newController 0x4017 0x4017),
         Controller (newController 0x4016 0x4016),
         Region (Plain (Addressable 0x4000 0x4015 None)),
         PPU ppu0,
         Region (RAM ram0)],
      emitted = []\<rparr>"

text \<open>A CPU on that bus in its reset state, about to run at 0x8000.\<close>

definition cpu0 :: cpu where
  "cpu0 = \<lparr>cpuBus = cpuBus0, cyclesRemaining = 0, additionalCycles = 0,
            pendingIRQ = False, pendingNMI = False,
            regA = 0x00, regX = 0x00, regY = 0x00, regP = 0x34, regSP = 0xfd,
            regPC = 0x8000\<rparr>"

text \<open>
  The same CPU at 0x0200 with the operand 0x01 stored at 0x0201 and the accumulator
  0x7F, and with the accumulator 0xFF; the carry flag of \<open>P = 0x34\<close> is clear.  The
  third state has the operand 0x00, the accumulator 0x7F and the carry flag set
  (\<open>P = 0x35\<close>).
\<close>

definition adc_7F :: cpu where
  "adc_7F = (cpuBus_write cpu0 0x0201 0x01)\<lparr>regA := 0x7F, regPC := 0x0200\<rparr>"

definition adc_FF :: cpu where
  "adc_FF = (cpuBus_write cpu0 0x0201 0x01)\<lparr>regA := 0xFF, regPC := 0x0200\<rparr>"

definition adc_7F_carry :: cpu where
  "adc_7F_carry =
     (cpuBus_write cpu0 0x0201 0x00)\<lparr>regA := 0x7F, regP := 0x35, regPC := 0x0200\<rparr>"

text \<open>The stack page is served by the RAM \<open>m\<close> found between \<open>pre\<close> and \<open>post\<close>.\<close>

definition stackRAM :: "device list \<Rightarrow> device list \<Rightarrow> memory \<Rightarrow> device list \<Rightarrow> bool" where
  "stackRAM ds pre m post =
     (ds = pre @ Region (RAM m) # post \<and> list_all (\<lambda>d. 0x1ff < device_start d) pre \<and>
      startAddress m \<le> 0x100 \<and> 0x200 - startAddress m \<le> actualSize m \<and>
      actualSize m \<le> int (length (bytes m)))"

section \<open>Loading and reading a ROM\<close>

lemma js_rem_nonneg: "0 \<le> a \<Longrightarrow> 0 < b \<Longrightarrow> js_rem a b = Some (a mod b)"
  by (simp add: js_rem_def sgn_if)

lemma mod_shift_inj:
  fixes d :: int
  assumes "(d + int i) mod int L = (d + int j) mod int L" "i < L" "j < L"
  shows "i = j"
proof -
  have "int L dvd (d + int i) - (d + int j)"
    using assms(1) by (simp add: mod_eq_dvd_iff)
  then have "int L dvd int i - int j" by simp
  moreover have "\<bar>int i - int j\<bar> < int L" using assms(2,3) by linarith
  ultimately have "int i - int j = 0"
    using zdvd_not_zless[of "\<bar>int i - int j\<bar>" "int L"] by (cases "int i - int j = 0") auto
  then show ?thesis by simp
qed

lemma ROM_setByte_in_range:
  assumes "startAddress r \<le> a" "0 < actualSize r" "actualSize r \<le> int (length (bytes r))"
  shows "ROM_setByte r a b =
           r\<lparr>bytes := (bytes r)[nat ((a - startAddress r) mod actualSize r) := b]\<rparr>"
proof -
  have "(a - startAddress r) mod actualSize r < actualSize r"
    using assms(2) by simp
  then have "(a - startAddress r) mod actualSize r < int (length (bytes r))"
    using assms(3) by linarith
  moreover have "0 \<le> (a - startAddress r) mod actualSize r"
    using assms(2) by simp
  ultimately show ?thesis
    using assms by (simp add: ROM_setByte_def js_rem_nonneg storeAt_def)
qed

lemma ROM_load_loop:
  assumes "startAddress r \<le> s" "actualSize r = int L" "0 < L" "L \<le> length (bytes r)" "n \<le> L"
  shows "startAddress (foldl (\<lambda>r' i. ROM_setByte r' (s + int i) (bs ! i)) r [0..<n]) = startAddress r
       \<and> actualSize (foldl (\<lambda>r' i. ROM_setByte r' (s + int i) (bs ! i)) r [0..<n]) = int L
       \<and> length (bytes (foldl (\<lambda>r' i. ROM_setByte r' (s + int i) (bs ! i)) r [0..<n])) = length (bytes r)
       \<and> (\<forall>i<n. bytes (foldl (\<lambda>r' i. ROM_setByte r' (s + int i) (bs ! i)) r [0..<n])
                    ! nat ((s - startAddress r + int i) mod int L) = bs ! i)"
  using assms(5)
proof (induction n)
  case 0
  show ?case using assms(2) by simp
next
  case (Suc n)
  define r1 where "r1 = foldl (\<lambda>r' i. ROM_setByte r' (s + int i) (bs ! i)) r [0..<n]"
  have ih: "startAddress r1 = startAddress r" "actualSize r1 = int L"
    "length (bytes r1) = length (bytes r)"
    "\<forall>i<n. bytes r1 ! nat ((s - startAddress r + int i) mod int L) = bs ! i"
    using Suc by (simp_all add: r1_def)
  define k where "k = nat ((s - startAddress r + int n) mod int L)"
  have kL: "k < L" using assms(3) by (simp add: k_def nat_less_iff)
  have step: "ROM_setByte r1 (s + int n) (bs ! n) = r1\<lparr>bytes := (bytes r1)[k := bs ! n]\<rparr>"
    using ROM_setByte_in_range[of r1 "s + int n" "bs ! n"] assms ih
    by (simp add: k_def algebra_simps)
  have fold: "foldl (\<lambda>r' i. ROM_setByte r' (s + int i) (bs ! i)) r [0..<Suc n]
                = r1\<lparr>bytes := (bytes r1)[k := bs ! n]\<rparr>"
    by (simp add: r1_def[symmetric] step)
  have other: "nat ((s - startAddress r + int i) mod int L) \<noteq> k" if "i < n" for i
  proof
    assume e: "nat ((s - startAddress r + int i) mod int L) = k"
    have "(s - startAddress r + int i) mod int L = (s - startAddress r + int n) mod int L"
      using e assms(3) by (simp add: k_def nat_eq_iff)
    then have "i = n" using mod_shift_inj[of "s - startAddress r" i L n] that Suc.prems by simp
    then show False using that by simp
  qed
  show ?case
    unfolding fold using ih kL assms(4) other
    by (auto simp: less_Suc_eq k_def[symmetric] nth_list_update)
qed

lemma ROM_load_fields:
  assumes "bs \<noteq> []" "startAddress r \<le> s" "length bs \<le> length (bytes r)"
  shows "startAddress (ROM_load r s bs) = startAddress r"
    and "actualSize (ROM_load r s bs) = int (length bs)"
    and "length (bytes (ROM_load r s bs)) = length (bytes r)"
    and "i < length bs \<Longrightarrow>
           bytes (ROM_load r s bs) ! nat ((s - startAddress r + int i) mod int (length bs)) = bs ! i"
  using ROM_load_loop[of "r\<lparr>actualSize := int (length bs)\<rparr>" s "length bs" "length bs" bs] assms
  by (simp_all add: ROM_load_def)

lemma ROM_read_in_range:
  assumes "startAddress r \<le> a" "0 < actualSize r" "actualSize r \<le> int (length (bytes r))"
  shows "ROM_read r a = bytes r ! nat ((a - startAddress r) mod actualSize r)"
proof -
  have "(a - startAddress r) mod actualSize r < actualSize r"
    using assms(2) by simp
  then have "(a - startAddress r) mod actualSize r < int (length (bytes r))"
    using assms(3) by linarith
  moreover have "0 \<le> (a - startAddress r) mod actualSize r"
    using assms(2) by simp
  ultimately show ?thesis
    using assms by (simp add: ROM_read_def js_rem_nonneg byteAt_def)
qed

lemma ROM_load_read_back:
  assumes "bs \<noteq> []" "startAddress r \<le> s" "length bs \<le> length (bytes r)" "i < length bs"
  shows "ROM_read (ROM_load r s bs) (s + int i) = bs ! i"
proof -
  have "ROM_read (ROM_load r s bs) (s + int i)
          = bytes (ROM_load r s bs) ! nat ((s + int i - startAddress r) mod int (length bs))"
    using ROM_read_in_range[of "ROM_load r s bs" "s + int i"] assms
    by (simp add: ROM_load_fields)
  also have "s + int i - startAddress r = s - startAddress r + int i" by simp
  finally show ?thesis using ROM_load_fields(4)[OF assms] by simp
qed

lemma ROM_load_periodic:
  assumes "bs \<noteq> []" "startAddress r \<le> s" "length bs \<le> length (bytes r)" "startAddress r \<le> a"
  shows "ROM_read (ROM_load r s bs) (a + int (length bs)) = ROM_read (ROM_load r s bs) a"
proof -
  have "ROM_read (ROM_load r s bs) (a + int (length bs))
          = bytes (ROM_load r s bs) ! nat ((a + int (length bs) - startAddress r) mod int (length bs))"
    using ROM_read_in_range[of "ROM_load r s bs" "a + int (length bs)"] assms
    by (simp add: ROM_load_fields)
  moreover have "ROM_read (ROM_load r s bs) a
          = bytes (ROM_load r s bs) ! nat ((a - startAddress r) mod int (length bs))"
    using ROM_read_in_range[of "ROM_load r s bs" a] assms
    by (simp add: ROM_load_fields)
  moreover have "a + int (length bs) - startAddress r = a - startAddress r + int (length bs)"
    by simp
  then have "(a + int (length bs) - startAddress r) mod int (length bs)
                   = (a - startAddress r) mod int (length bs)"
    by (metis mod_add_self2)
  ultimately show ?thesis by simp
qed

lemma NES_prg_rom: "NES_prg = Some NES_prg_rom"
  by (simp add: NES_prg_def NES_prg_rom_def newMemory_def Addressable_def
      addressable.extend_def memory.fields_def)

lemma NES_prg_fields:
  assumes "NES_prg = Some r"
  shows "startAddress r = 0x4020" and "length (bytes r) = 49120"
  using assms by (auto simp: NES_prg_def newMemory_def Addressable_def Let_def
      addressable.extend_def memory.fields_def)

text \<open>
  Claim C10, as amended.  For every non-empty image \<open>bs\<close> that is no longer than the
  byte buffer of the ROM (the buffer has \<^verbatim>\<open>endAddress - startAddress + 1\<close> bytes from
  the constructor and is never resized) and every address \<open>s\<close> at or above the
  region's \<^verbatim>\<open>startAddress\<close>, \<^verbatim>\<open>ROM.load(s, bs)\<close> sets \<^verbatim>\<open>actualSize\<close> to the length of
  \<open>bs\<close>; afterwards \<^verbatim>\<open>read(s + i)\<close> is \<open>bs[i]\<close> for every \<open>i\<close> below that length and
  reads are periodic with that period from \<^verbatim>\<open>startAddress\<close> upwards.  Hence a 16 KiB
  image loaded at 0x8000 into the console's program ROM is seen again at
  0xC000..0xFFFF, and the byte at the reset vector 0xFFFC is byte 0x3FFC of the image.
\<close>

theorem ROM_load_then_read:
  assumes "bs \<noteq> []" "startAddress r \<le> s" "length bs \<le> length (bytes r)"
  shows "actualSize (ROM_load r s bs) = int (length bs)
       \<and> (\<forall>i<length bs. ROM_read (ROM_load r s bs) (s + int i) = bs ! i)
       \<and> (\<forall>a. startAddress r \<le> a \<longrightarrow>
              ROM_read (ROM_load r s bs) (a + int (length bs)) = ROM_read (ROM_load r s bs) a)
       \<and> (NES_prg = Some r \<and> s = 0x8000 \<and> length bs = 16384 \<longrightarrow>
              ROM_read (ROM_load r s bs) 0xFFFC = bs ! 0x3FFC
            \<and> (\<forall>i<16384. ROM_read (ROM_load r s bs) (0xC000 + int i) = bs ! i))"
proof (intro conjI allI impI)
  show "actualSize (ROM_load r s bs) = int (length bs)"
    using assms by (rule ROM_load_fields(2))
next
  fix i assume "i < length bs"
  then show "ROM_read (ROM_load r s bs) (s + int i) = bs ! i"
    using assms by (simp add: ROM_load_read_back)
next
  fix a assume "startAddress r \<le> a"
  then show "ROM_read (ROM_load r s bs) (a + int (length bs)) = ROM_read (ROM_load r s bs) a"
    using assms by (simp add: ROM_load_periodic)
next
  assume nes: "NES_prg = Some r \<and> s = 0x8000 \<and> length bs = 16384"
  have st: "startAddress r \<le> 0x8000 + int 0x3FFC"
    using NES_prg_fields(1)[of r] nes by simp
  have "ROM_read (ROM_load r s bs) (0x8000 + int 0x3FFC + int (length bs))
          = ROM_read (ROM_load r s bs) (0x8000 + int 0x3FFC)"
    using assms st by (rule ROM_load_periodic)
  moreover have "ROM_read (ROM_load r s bs) (s + int 0x3FFC) = bs ! 0x3FFC"
    using ROM_load_read_back[of bs r s "0x3FFC"] assms nes by linarith
  ultimately show "ROM_read (ROM_load r s bs) 0xFFFC = bs ! 0x3FFC"
    using nes by simp
next
  fix i :: nat
  assume nes: "NES_prg = Some r \<and> s = 0x8000 \<and> length bs = 16384" and i: "i < 16384"
  have st: "startAddress r \<le> 0x8000 + int i"
    using NES_prg_fields(1)[of r] nes by simp
  have "ROM_read (ROM_load r s bs) (0x8000 + int i + int (length bs))
          = ROM_read (ROM_load r s bs) (0x8000 + int i)"
    using assms st by (rule ROM_load_periodic)
  moreover have "ROM_read (ROM_load r s bs) (s + int i) = bs ! i"
    using ROM_load_read_back[of bs r s i] assms nes i by linarith
  ultimately show "ROM_read (ROM_load r s bs) (0xC000 + int i) = bs ! i"
    using nes by (simp add: algebra_simps)
qed

text \<open>
  The theorem at two inputs: three bytes loaded at address 1 of a four-byte ROM, and a
  16 KiB image loaded at 0x8000 into the console's program ROM.
\<close>

theorem ROM_load_then_read_witness:
  "[7, 8, 9] \<noteq> ([] :: byte list) \<and> startAddress small_rom \<le> 1
   \<and> length [7, 8, 9 :: byte] \<le> length (bytes small_rom)
   \<and> actualSize (ROM_load small_rom 1 [7, 8, 9]) = 3
   \<and> ROM_read (ROM_load small_rom 1 [7, 8, 9]) (1 + 2) = 9
   \<and> ROM_read (ROM_load small_rom 1 [7, 8, 9]) (1 + 3) = ROM_read (ROM_load small_rom 1 [7, 8, 9]) 1
   \<and> NES_prg = Some NES_prg_rom \<and> length (replicate 16384 (0x5A :: byte)) = 16384
   \<and> ROM_read (ROM_load NES_prg_rom 0x8000 (replicate 16384 0x5A)) 0xFFFC = 0x5A"
proof -
  have g: "replicate 16384 (0x5A :: byte) \<noteq> []" "startAddress NES_prg_rom \<le> 0x8000"
    "length (replicate 16384 (0x5A :: byte)) \<le> length (bytes NES_prg_rom)"
    by (simp_all add: NES_prg_rom_def)
  have nes: "ROM_read (ROM_load NES_prg_rom 0x8000 (replicate 16384 0x5A)) 0xFFFC = 0x5A"
    using ROM_load_then_read[OF g] NES_prg_rom by simp
  have h: "[7, 8, 9] \<noteq> ([] :: byte list)" "startAddress small_rom \<le> 1"
    "length [7, 8, 9 :: byte] \<le> length (bytes small_rom)"
    by (simp_all add: small_rom_def)
  have "2 < length [7, 8, 9 :: byte]" by simp
  moreover have "startAddress small_rom \<le> 1" by (simp add: small_rom_def)
  ultimately show ?thesis
    using ROM_load_then_read[OF h] h nes NES_prg_rom by force
qed

text \<open>
  Claim C10 as stated fails for an image longer than the buffer: three bytes loaded
  into the two-byte ROM \<^verbatim>\<open>new ROM(0, 1)\<close>; the third store is past the end of the
  typed array and is lost, so \<^verbatim>\<open>read(0 + 2)\<close> is 0 and not \<open>bs[2] = 3\<close>.
\<close>

theorem ROM_load_oversize_counterexample:
  "newMemory 0 1 None = Some tiny_rom \<and> [1, 2, 3] \<noteq> ([] :: byte list)
   \<and> startAddress tiny_rom \<le> 0
   \<and> ROM_read (ROM_load tiny_rom 0 [1, 2, 3]) (0 + int 2) \<noteq> [1, 2, 3] ! 2"
proof -
  have "replicate (nat 2) (0 :: byte) = [0, 0]"
    by (simp add: numeral_2_eq_2)
  then show ?thesis
    by (simp add: newMemory_def Addressable_def tiny_rom_def addressable.extend_def
      memory.fields_def ROM_load_def ROM_setByte_def ROM_read_def js_rem_def storeAt_def
      byteAt_def upt_rec)
qed

section \<open>Address decoding on the bus\<close>

lemma readFirst_unmapped:
  "\<forall>d\<in>set ds. a < startAddressOf C d \<Longrightarrow> readFirst C ds a = (None, ds)"
  by (induction ds) auto

lemma writeFirst_unmapped:
  "\<forall>d\<in>set ds. a < startAddressOf C d \<Longrightarrow> writeFirst C ds a v = ds"
  by (induction ds) auto

lemma first_mapped:
  assumes "\<exists>d\<in>set ds. startAddressOf C d \<le> a"
  shows "\<exists>pre d post. ds = pre @ d # post \<and> (\<forall>e\<in>set pre. a < startAddressOf C e)
           \<and> startAddressOf C d \<le> a
           \<and> readFirst C ds a = (Some (fst (readOf C d a)), pre @ snd (readOf C d a) # post)
           \<and> writeFirst C ds a v = pre @ writeOf C d a v # post"
  using assms
proof (induction ds)
  case Nil
  then show ?case by simp
next
  case (Cons x xs)
  show ?case
  proof (cases "a < startAddressOf C x")
    case True
    then have "\<exists>d\<in>set xs. startAddressOf C d \<le> a" using Cons.prems by auto
    from Cons.IH[OF this] obtain pre d post where
      p: "xs = pre @ d # post" "\<forall>e\<in>set pre. a < startAddressOf C e" "startAddressOf C d \<le> a"
         "readFirst C xs a = (Some (fst (readOf C d a)), pre @ snd (readOf C d a) # post)"
         "writeFirst C xs a v = pre @ writeOf C d a v # post"
      by blast
    have "x # xs = (x # pre) @ d # post" using p(1) by simp
    moreover have "\<forall>e\<in>set (x # pre). a < startAddressOf C e" using p(2) True by simp
    moreover have "readFirst C (x # xs) a
                     = (Some (fst (readOf C d a)), (x # pre) @ snd (readOf C d a) # post)"
      using True p(4) by simp
    moreover have "writeFirst C (x # xs) a v = (x # pre) @ writeOf C d a v # post"
      using True p(5) by simp
    ultimately show ?thesis using p(3) by blast
  next
    case False
    have "x # xs = [] @ x # xs" by simp
    moreover have "readFirst C (x # xs) a
                     = (Some (fst (readOf C x a)), [] @ snd (readOf C x a) # xs)"
      using False by (simp add: case_prod_unfold Let_def)
    moreover have "writeFirst C (x # xs) a v = [] @ writeOf C x a v # xs"
      using False by simp
    moreover have "\<forall>e\<in>set []. a < startAddressOf C e" by simp
    ultimately show ?thesis using False by (metis not_less)
  qed
qed

lemma sorted_first_is_greatest:
  assumes "sorted (map (\<lambda>d. - startAddressOf C d) ds)" "ds = pre @ d # post"
    "\<forall>e\<in>set pre. a < startAddressOf C e" "e \<in> set ds" "startAddressOf C e \<le> a"
  shows "startAddressOf C e \<le> startAddressOf C d"
proof -
  have "e \<notin> set pre" using assms(3,5) by auto
  then have "e = d \<or> e \<in> set post" using assms(2,4) by auto
  moreover have "\<forall>y\<in>set post. - startAddressOf C d \<le> - startAddressOf C y"
    using assms(1,2) by (simp add: sorted_append)
  ultimately show ?thesis by auto
qed

text \<open>
  Claim C9.  On a bus none of whose regions starts at or below the address, the loop of
  \<^verbatim>\<open>Bus.read\<close> ends without a \<^verbatim>\<open>return\<close>: the result is \<^verbatim>\<open>undefined\<close> (\<open>None\<close>), not
  the byte 0x00 of the claim.  The write is dropped and no region changes, as claimed.
\<close>

theorem Bus_read_unmapped_is_undefined:
  assumes "\<forall>d\<in>set ds. a < startAddressOf C d"
  shows "Bus_read C (Bus C ds) a = (None, Bus C ds) \<and> Bus_write C (Bus C ds) a v = Bus C ds"
proof -
  have "\<forall>d\<in>set (addressables (Bus C ds)). a < startAddressOf C d"
    using assms by (simp add: Bus_def Bus_reset_def)
  then show ?thesis
    by (simp add: Bus_read_def Bus_write_def readFirst_unmapped writeFirst_unmapped)
qed

theorem Bus_read_unmapped_is_undefined_witness:
  "5 < startAddressOf regions (RAM ram16)
   \<and> Bus_read regions (Bus regions [RAM ram16]) 5 = (None, Bus regions [RAM ram16])
   \<and> fst (Bus_read regions (Bus regions [RAM ram16]) 5) \<noteq> Some 0
   \<and> Bus_write regions (Bus regions [RAM ram16]) 5 0xAB = Bus regions [RAM ram16]"
proof -
  have h: "\<forall>d\<in>set [RAM ram16]. 5 < startAddressOf regions d"
    by (simp add: regions_def ram16_def)
  show ?thesis
    using Bus_read_unmapped_is_undefined[OF h, of "0xAB"] h by simp
qed

text \<open>
  The other half of the claim holds: on a bus built by the constructor, an address at
  or above some region's start is served, for reading and for writing, by the first
  region of the sorted list that starts at or below it, and no region that starts at
  or below the address starts higher.
\<close>

lemma Bus_mapped_greatest:
  assumes "\<exists>d\<in>set ds. startAddressOf C d \<le> a"
  shows "\<exists>pre d post. addressables (Bus C ds) = pre @ d # post
           \<and> startAddressOf C d \<le> a
           \<and> (\<forall>e\<in>set ds. startAddressOf C e \<le> a \<longrightarrow> startAddressOf C e \<le> startAddressOf C d)
           \<and> Bus_read C (Bus C ds) a
                = (Some (fst (readOf C d a)),
                   (Bus C ds)\<lparr>addressables := pre @ snd (readOf C d a) # post\<rparr>)
           \<and> Bus_write C (Bus C ds) a v
                = (Bus C ds)\<lparr>addressables := pre @ writeOf C d a v # post\<rparr>"
proof -
  let ?xs = "addressables (Bus C ds)"
  have set: "set ?xs = set ds" by (simp add: Bus_def Bus_reset_def)
  have srt: "sorted (map (\<lambda>d. - startAddressOf C d) ?xs)"
    by (simp add: Bus_def Bus_reset_def)
  have "\<exists>d\<in>set ?xs. startAddressOf C d \<le> a" using assms set by simp
  from first_mapped[OF this, of v] obtain pre d post where
    p: "?xs = pre @ d # post" "\<forall>e\<in>set pre. a < startAddressOf C e" "startAddressOf C d \<le> a"
       "readFirst C ?xs a = (Some (fst (readOf C d a)), pre @ snd (readOf C d a) # post)"
       "writeFirst C ?xs a v = pre @ writeOf C d a v # post"
    by blast
  have "\<forall>e\<in>set ds. startAddressOf C e \<le> a \<longrightarrow> startAddressOf C e \<le> startAddressOf C d"
    using sorted_first_is_greatest[OF srt p(1) p(2)] set by blast
  then show ?thesis
    using p by (auto simp: Bus_read_def Bus_write_def)
qed

section \<open>The clock drives the CPU every third step\<close>

lemma Clock_steps_add:
  "Clock_steps (k + n) c w = (case Clock_steps k c w of (c', w') \<Rightarrow> Clock_steps n c' w')"
  by (induction k arbitrary: c w) (auto split: prod.splits)

lemma Clock_steps_Suc_end:
  "Clock_steps (Suc k) c w = (case Clock_steps k c w of (c', w') \<Rightarrow> Clock_step c' w')"
  using Clock_steps_add[of k 1 c w] by (simp split: prod.splits)

lemma NES_clock_wired: "NES_clock logCPU logPPU = wired 0"
  by (simp add: NES_clock_def addTickCallback_def Clock_def wired_def js_rem_def CLOCK_OFFSET_def)

lemma step_wired:
  assumes "0 \<le> n" "n < 3"
  shows "Clock_step (wired n) w =
           (wired ((n + 2) mod 3), if n = 0 then w @ [CPU_called, PPU_called] else w @ [PPU_called])"
  using assms
  by (auto simp: Clock_step_def wired_def isDue_def countDown_def js_rem_def logCPU_def
      logPPU_def sgn_if add.commute)

lemma steps_wired:
  "Clock_steps n (wired ((- int k) mod 3)) w = (wired ((- int (k + n)) mod 3), w @ seg k n)"
proof (induction n)
  case 0
  show ?case by simp
next
  case (Suc n)
  have r: "0 \<le> (- int (k + n)) mod 3" "(- int (k + n)) mod 3 < 3" by simp_all
  have m: "((- int (k + n)) mod 3 + 2) mod 3 = (- int (k + Suc n)) mod 3"
    by presburger
  have z: "((- int (k + n)) mod 3 = 0) = ((k + n) mod 3 = 0)" by presburger
  show ?case
    unfolding Clock_steps_Suc_end Suc.IH
    using step_wired[OF r, of "w @ seg k n"] m z by simp
qed

lemma count_seg_PPU: "count_list (seg k n) PPU_called = n"
  by (induction n) auto

lemma count_seg_CPU: "count_list (seg k n) CPU_called = (k + n + 2) div 3 - (k + 2) div 3"
proof (induction n)
  case 0
  show ?case by simp
next
  case (Suc n)
  have "(k + Suc n + 2) div 3 = (k + n + 2) div 3 + (if (k + n) mod 3 = 0 then 1 else 0)"
    by presburger
  moreover have "(k + 2) div 3 \<le> (k + n + 2) div 3" by (simp add: div_le_mono)
  ultimately show ?case using Suc by auto
qed

lemma div3_split:
  "(k + n + 2) div 3 = (k + 2) div 3 + n div 3 + ((k + 2) mod 3 + n mod 3) div (3::nat)"
proof -
  have "k + n + 2 = (k + 2) + n" by simp
  then show ?thesis by (metis div_add1_eq)
qed

lemma div3_carry: "((k + 2) mod 3 + n mod 3) div (3::nat) \<le> 1"
proof -
  have "(k + 2) mod 3 < 3" "n mod 3 < 3" by simp_all
  then show ?thesis by linarith
qed

lemma count_seg_CPU_bounds:
  "n div 3 \<le> count_list (seg k n) CPU_called \<and> count_list (seg k n) CPU_called \<le> n div 3 + 1"
  using div3_carry[of k n] unfolding count_seg_CPU div3_split[of k n] by simp

lemma count_seg_CPU_exact: "count_list (seg k (3 * m)) CPU_called = m"
  unfolding count_seg_CPU by simp


text \<open>
  Claim C7.  Take the clock as the constructor of \<^verbatim>\<open>NES\<close> wires it, after any number
  \<open>k\<close> of steps, and let it make \<open>N\<close> more.  In this window the PPU callback runs
  exactly \<open>N\<close> times (the offset is 0) and the CPU callback once for every multiple of
  3 among the step numbers \<open>k, ..., k + N - 1\<close>, which is \<open>\<lfloor>N/3\<rfloor>\<close> or \<open>\<lfloor>N/3\<rfloor> + 1\<close> times
  depending on the phase \<open>k mod 3\<close>; over a window of \<open>3 m\<close> steps the counts are \<open>m\<close> and
  \<open>3 m\<close>, the ratio 1 : 3.  A single step calls either the PPU alone or the CPU and
  then the PPU.
\<close>

theorem Clock_window:
  "case Clock_steps k (NES_clock logCPU logPPU) w0 of (c1, w1) \<Rightarrow>
     (case Clock_steps N c1 w1 of (c2, w2) \<Rightarrow>
        \<exists>s. w2 = w1 @ s
          \<and> count_list s PPU_called = N
          \<and> count_list s CPU_called = (k + N + 2) div 3 - (k + 2) div 3
          \<and> N div 3 \<le> count_list s CPU_called \<and> count_list s CPU_called \<le> N div 3 + 1)
   \<and> (case Clock_steps (3 * m) c1 w1 of (c3, w3) \<Rightarrow>
        \<exists>s. w3 = w1 @ s \<and> count_list s CPU_called = m \<and> count_list s PPU_called = 3 * m)
   \<and> (case Clock_step c1 w1 of (c', w') \<Rightarrow>
        w' = w1 @ [CPU_called, PPU_called] \<or> w' = w1 @ [PPU_called])"
proof -
  have start: "Clock_steps k (NES_clock logCPU logPPU) w0
                 = (wired ((- int k) mod 3), w0 @ seg 0 k)"
    using steps_wired[of k 0 w0] by (simp add: NES_clock_wired)
  have r: "0 \<le> (- int k) mod 3" "(- int k) mod 3 < 3" by simp_all
  show ?thesis
    unfolding start
    using count_seg_CPU_bounds[of N k] count_seg_CPU_exact[of k m]
    by (simp add: steps_wired step_wired[OF r] count_seg_PPU count_seg_CPU)
qed

section \<open>The mapper number in the iNES header\<close>

lemma compareBytes_eq: "compareBytes xs ys = (xs = ys)"
  by (induction xs ys rule: compareBytes.induct) auto

lemma F0: "(0xF0 :: int) = push_bit 4 (mask 4)"
  by (simp add: mask_eq_exp_minus_1)

lemma lo_nibble: "uint (b::byte) AND 0xF0 = push_bit 4 (uint (drop_bit 4 b))"
  unfolding F0
  by (rule bit_eqI) (auto simp: bit_simps bit_uint_iff dest: bit_imp_le_length)

lemma mapper_bits:
  "push_bit 0 (uint (b6::byte) AND 0xF0) OR push_bit 4 (uint (b7::byte) AND 0xF0)
     = 16 * (uint (drop_bit 4 b6) OR (uint b7 AND 0xF0))"
proof -
  have "16 * (uint (drop_bit 4 b6) OR (uint b7 AND 0xF0))
          = push_bit 4 (uint (drop_bit 4 b6) OR (uint b7 AND 0xF0))"
    by (simp add: push_bit_eq_mult)
  also have "\<dots> = push_bit 4 (uint (drop_bit 4 b6)) OR push_bit 4 (uint b7 AND 0xF0)"
    by (simp add: push_bit_or)
  finally show ?thesis by (simp add: lo_nibble)
qed

text \<open>
  Claim C8.  For a header that starts with the four bytes of \<^verbatim>\<open>"NES\x1A"\<close> the parser
  takes bits 7:4 of byte 6 and bits 7:4 of byte 7, as claimed, but leaves the first
  where they are (\<^verbatim>\<open><< 0\<close>) and shifts the second left by 4: the number it stores is 16
  times the mapper number \<^verbatim>\<open>(byte6 >> 4) | (byte7 & 0xF0)\<close> of the claim.
\<close>

theorem parseHeader_mapper_is_shifted:
  assumes "take 4 bs = HEADER_INES_DECLARATION" "7 < length bs"
  shows "\<exists>h. parseHeader bs = Inr h
           \<and> mapper h = 16 * (uint (drop_bit 4 (bs ! 6)) OR (uint (bs ! 7) AND 0xF0))"
  using assms
  by (simp add: parseHeader_def compareBytes_eq elementAt_def masked_def Let_def
      HEADER_FLAGS_6_MASK_MAPPER_LO_def HEADER_FLAGS_7_MASK_MAPPER_HI_def
      mapper_bits[simplified])

theorem parseHeader_mapper_is_shifted_witness:
  "take 4 mmc1_header = HEADER_INES_DECLARATION \<and> 7 < length mmc1_header
   \<and> (\<exists>h. parseHeader mmc1_header = Inr h \<and> mapper h = 16)
   \<and> uint (drop_bit 4 (mmc1_header ! 6)) OR (uint (mmc1_header ! 7) AND 0xF0) = 1"
proof -
  have h: "take 4 mmc1_header = HEADER_INES_DECLARATION" "7 < length mmc1_header"
    by (simp_all add: mmc1_header_def HEADER_INES_DECLARATION_def)
  have v: "uint (drop_bit 4 (mmc1_header ! 6)) OR (uint (mmc1_header ! 7) AND 0xF0) = 1"
    by (simp add: mmc1_header_def drop_bit_eq_div)
  show ?thesis
    using parseHeader_mapper_is_shifted[OF h] h v by simp
qed

section \<open>The PPU registers\<close>

lemma NES_ppuBus_value: "NES_ppuBus = Some ppuBus0"
  by (simp add: NES_ppuBus_def ppuBus0_def newMemory_def Addressable_def addressable.extend_def
      memory.fields_def chr0_def vram0_def paletteRAM0_def Bus_def Bus_reset_def regions_def
      CHR_START_ADDRESS_def CHR_END_ADDRESS_def NAMETABLE_0_START_ADDRESS_def
      NAMETABLE_3_END_ADDRESS_def NAMETABLE_MIRROR_END_ADDRESS_def PALETTE_START_ADDRESS_def
      PALETTE_END_ADDRESS_def PALETTE_MIRROR_END_ADDRESS_def)

lemmas register_addresses =
  REGISTER_START_ADDRESS_def REGISTER_PPUCTRL_def REGISTER_PPUMASK_def REGISTER_PPUSTATUS_def
  REGISTER_PPUADDR_def REGISTER_PPUDATA_def

lemma rem_const_window:
  "0x2000 \<le> a \<Longrightarrow> a \<le> 0x3FFF \<Longrightarrow> rem_const a 0x2000 = a - 0x2000"
proof -
  assume a: "0x2000 \<le> a" "a \<le> 0x3FFF"
  have "(a - 0x2000) mod 0x2000 = a - 0x2000"
    by (rule mod_pos_pos_trivial) (use a in simp_all)
  then have "a mod 0x2000 = a - 0x2000"
    using mod_add_self2[of "a - 0x2000" "0x2000"] by (simp only: diff_add_cancel)
  then show ?thesis using a by (simp add: rem_const_def sgn_if)
qed

lemma setRegister_fields [simp]:
  "vramAddress (setRegister p a v) = vramAddress p"
  "vramAddressLatch (setRegister p a v) = vramAddressLatch p"
  "ppuBus (setRegister p a v) = ppuBus p"
  "cycle (setRegister p a v) = cycle p"
  "scanline (setRegister p a v) = scanline p"
  "startAddress (setRegister p a v) = startAddress p"
  "actualSize (setRegister p a v) = actualSize p"
  "length (bytes (setRegister p a v)) = length (bytes p)"
  "presented (setRegister p a v) = presented p"
  "imageBytes (setRegister p a v) = imageBytes p"
  by (auto simp: setRegister_def storeAt_def split: option.splits)

text \<open>
  Claim C1.  Two writes \<open>hi\<close>, \<open>lo\<close> to PPUADDR from a cleared latch set the VRAM address
  to \<open>(hi << 8) + lo\<close> and clear the latch when \<open>hi\<close> is not 0.  When \<open>hi = 0x00\<close> the
  second write finds a latch that is falsy, takes itself for a first write, leaves the
  VRAM address as it was and keeps \<open>lo\<close> in the latch: the claim fails there.
\<close>

theorem PPUADDR_double_write:
  assumes "vramAddressLatch p = None"
  shows "if hi \<noteq> 0
         then vramAddress (PPU_write (PPU_write p 0x2006 hi) 0x2006 lo) = push_bit 8 (uint hi) + uint lo
            \<and> vramAddressLatch (PPU_write (PPU_write p 0x2006 hi) 0x2006 lo) = None
         else vramAddress (PPU_write (PPU_write p 0x2006 hi) 0x2006 lo) = vramAddress p
            \<and> vramAddressLatch (PPU_write (PPU_write p 0x2006 hi) 0x2006 lo) = Some lo"
proof -
  have b: "rem_const 0x2006 REGISTER_START_ADDRESS + REGISTER_START_ADDRESS = REGISTER_PPUADDR"
    by (simp add: rem_const_def register_addresses)
  have w: "PPU_write q 0x2006 v =
             (let p1 = setRegister q REGISTER_PPUADDR v
              in if truthy (vramAddressLatch p1)
                 then p1\<lparr>vramAddress := push_bit 8 (toInt32 (vramAddressLatch p1)) + uint v,
                         vramAddressLatch := None\<rparr>
                 else p1\<lparr>vramAddressLatch := Some v\<rparr>)" for q v
    unfolding PPU_write_def b by (simp add: register_addresses)
  show ?thesis
    using assms by (simp add: w Let_def truthy_def toInt32_def)
qed

text \<open>
  Claim C4.  \<^verbatim>\<open>read\<close> and \<^verbatim>\<open>write\<close> reduce the address with
  \<^verbatim>\<open>(address % 0x2000) + 0x2000\<close>, which is the address itself on 0x2000..0x3FFF.  An
  address from 0x2008 up matches no register: the read is 0x00, the write is ignored,
  and the state does not change; the register file is not mirrored there.
\<close>

theorem PPU_registers_not_mirrored:
  assumes "0x2008 \<le> a" "a \<le> 0x3FFF"
  shows "PPU_read p a = (0x00, p) \<and> PPU_write p a v = p"
proof -
  have "rem_const a REGISTER_START_ADDRESS + REGISTER_START_ADDRESS = a"
    using rem_const_window[of a] assms by (simp add: register_addresses)
  then show ?thesis
    using assms by (simp add: PPU_read_def PPU_write_def register_addresses)
qed

lemmas ppu_eval =
  ppu_palette_written_def ppu0_def ppu0_vblank_def newPPU_def ppuBus0_def paletteRAM0_def vram0_def chr0_def
  PPU_write_def PPU_read_def rem_const_def register_addresses
  setRegister_def getRegister_def js_rem_def storeAt_def byteAt_def truthy_def toInt32_def
  ppuBus_write_def ppuBus_read_def Bus_write_def Bus_read_def regions_def RAM_write_def RAM_read_def
  ppuctrlIncrementMode_def ppuctrlNMIEnable_def ppuctrlNametableSelect_def ppustatusVBlank_def
  registerPPUCTRL_def registerPPUDATA_def registerPPUSTATUS_def
  set_ppustatusVBlank_def getBit_def setBit_def
  STATUS_FLAG_BIT_PPUCTRL_INCREMENT_MODE_def STATUS_FLAG_BIT_PPUSTATUS_VBLANK_def
  REGISTER_END_ADDRESS_def REGISTER_MIRROR_END_ADDRESS_def NAMETABLE_0_START_ADDRESS_def
  NAMETABLE_0_END_ADDRESS_def PALETTE_START_ADDRESS_def toUint8_def registerFile_def Let_def

lemma getRegister_file:
  assumes "registerFile p" "k < 8"
  shows "getRegister p (0x2000 + int k) = bytes p ! k"
  using assms by (simp add: getRegister_def registerFile_def js_rem_def byteAt_def
      REGISTER_START_ADDRESS_def sgn_if)

lemma setRegister_file:
  assumes "registerFile p" "k < 8"
  shows "setRegister p (0x2000 + int k) v = p\<lparr>bytes := (bytes p)[k := v]\<rparr>"
  using assms by (simp add: setRegister_def registerFile_def js_rem_def storeAt_def
      REGISTER_START_ADDRESS_def sgn_if)

lemma ppuBus_read_fields [simp]:
  "bytes (snd (ppuBus_read p a)) = bytes p"
  "startAddress (snd (ppuBus_read p a)) = startAddress p"
  "actualSize (snd (ppuBus_read p a)) = actualSize p"
  "vramAddress (snd (ppuBus_read p a)) = vramAddress p"
  "vramAddressLatch (snd (ppuBus_read p a)) = vramAddressLatch p"
  "cycle (snd (ppuBus_read p a)) = cycle p"
  "scanline (snd (ppuBus_read p a)) = scanline p"
  "fst (ppuBus_read p a) = fst (Bus_read regions (ppuBus p) a)"
  by (simp_all add: ppuBus_read_def case_prod_unfold Let_def)

lemma ppuBus_write_fields [simp]:
  "bytes (ppuBus_write p a v) = bytes p"
  "startAddress (ppuBus_write p a v) = startAddress p"
  "actualSize (ppuBus_write p a v) = actualSize p"
  "vramAddress (ppuBus_write p a v) = vramAddress p"
  "vramAddressLatch (ppuBus_write p a v) = vramAddressLatch p"
  by (simp_all add: ppuBus_write_def)

lemma registerFile_cong:
  "bytes q = bytes p \<Longrightarrow> startAddress q = startAddress p \<Longrightarrow> actualSize q = actualSize p
     \<Longrightarrow> getRegister q a = getRegister p a"
  by (simp add: getRegister_def)

lemma PPUDATA_base:
  "rem_const 0x2007 REGISTER_START_ADDRESS + REGISTER_START_ADDRESS = REGISTER_PPUDATA"
  by (simp add: rem_const_def register_addresses)

text \<open>
  Claim C2.  A read of PPUDATA at 0x2007 returns the byte buffered in the register,
  refills the register from the PPU bus at the VRAM address, and advances the VRAM
  address by 32 or by 1 after the increment mode, as a write does.  This is so for
  every VRAM address: the test for the palette range compares the register address
  0x2007 of the CPU with 0x3F00, not the VRAM address, so a palette read is delayed by
  one byte like any other and the claim fails there.
\<close>

theorem PPUDATA_read_returns_buffer:
  assumes "registerFile p"
  shows "fst (PPU_read p 0x2007) = registerPPUDATA p
       \<and> registerPPUDATA (snd (PPU_read p 0x2007))
           = toUint8 (fst (Bus_read regions (ppuBus p) (vramAddress p)))
       \<and> vramAddress (snd (PPU_read p 0x2007))
           = vramAddress p + (if ppuctrlIncrementMode p \<noteq> 0 then 32 else 1)
       \<and> vramAddress (PPU_write p 0x2007 v)
           = vramAddress p + (if ppuctrlIncrementMode p \<noteq> 0 then 32 else 1)"
proof -
  define q where "q = snd (ppuBus_read p (vramAddress p))"
  define f where "f = toUint8 (fst (Bus_read regions (ppuBus p) (vramAddress p)))"
  have rq: "registerFile q" using assms by (simp add: registerFile_def q_def)
  have rd: "PPU_read p 0x2007 =
              (registerPPUDATA p,
               (setRegister q REGISTER_PPUDATA f)
                 \<lparr>vramAddress := vramAddress p
                    + (if ppuctrlIncrementMode (setRegister q REGISTER_PPUDATA f) \<noteq> 0 then 32 else 1)\<rparr>)"
    unfolding PPU_read_def PPUDATA_base
    by (simp add: register_addresses PALETTE_START_ADDRESS_def Let_def case_prod_unfold q_def f_def)
  have s7: "setRegister q REGISTER_PPUDATA f = q\<lparr>bytes := (bytes q)[7 := f]\<rparr>"
    using setRegister_file[OF rq, of 7 f] by (simp add: REGISTER_PPUDATA_def)
  have inc: "ppuctrlIncrementMode (q\<lparr>bytes := (bytes q)[7 := f]\<rparr>) = ppuctrlIncrementMode p"
    using getRegister_file[of "q\<lparr>bytes := (bytes q)[7 := f]\<rparr>" 0] getRegister_file[OF assms, of 0] rq
    by (simp add: ppuctrlIncrementMode_def registerPPUCTRL_def REGISTER_PPUCTRL_def registerFile_def q_def)
  have dat: "registerPPUDATA (q\<lparr>bytes := (bytes q)[7 := f]\<rparr>
               \<lparr>vramAddress := vramAddress p + (if ppuctrlIncrementMode p \<noteq> 0 then 32 else 1)\<rparr>) = f"
    using getRegister_file[of "q\<lparr>bytes := (bytes q)[7 := f]\<rparr>
               \<lparr>vramAddress := vramAddress p + (if ppuctrlIncrementMode p \<noteq> 0 then 32 else 1)\<rparr>" 7] rq
    by (simp add: registerPPUDATA_def REGISTER_PPUDATA_def registerFile_def)
  define w where "w = ppuBus_write (setRegister p REGISTER_PPUDATA v) (vramAddress p) v"
  have wr: "PPU_write p 0x2007 v =
              w\<lparr>vramAddress := vramAddress p + (if ppuctrlIncrementMode w \<noteq> 0 then 32 else 1)\<rparr>"
    unfolding PPU_write_def PPUDATA_base
    by (simp add: register_addresses Let_def w_def)
  have p7: "setRegister p REGISTER_PPUDATA v = p\<lparr>bytes := (bytes p)[7 := v]\<rparr>"
    using setRegister_file[OF assms, of 7 v] by (simp add: REGISTER_PPUDATA_def)
  have rw: "registerFile w" using assms by (simp add: registerFile_def w_def)
  have incw: "ppuctrlIncrementMode w = ppuctrlIncrementMode p"
    using getRegister_file[OF rw, of 0] getRegister_file[OF assms, of 0]
    by (simp add: ppuctrlIncrementMode_def registerPPUCTRL_def REGISTER_PPUCTRL_def w_def p7)
  show ?thesis
    unfolding rd wr s7 inc incw using dat by (simp add: f_def)
qed

theorem PPUDATA_read_returns_buffer_witness:
  "registerFile ppu_palette_written \<and> vramAddress ppu_palette_written = 0x3F00
   \<and> fst (Bus_read regions (ppuBus ppu_palette_written) 0x3F00) = Some 0x22
   \<and> fst (PPU_read ppu_palette_written 0x2007) = 0x33"
proof -
  have h: "registerFile ppu_palette_written" by (simp add: ppu_eval)
  have "registerPPUDATA ppu_palette_written = 0x33" by (simp add: ppu_eval)
  moreover have "vramAddress ppu_palette_written = 0x3F00" by (simp add: ppu_eval)
  moreover have "fst (Bus_read regions (ppuBus ppu_palette_written) 0x3F00) = Some 0x22"
    by (simp add: ppu_eval)
  ultimately show ?thesis
    using PPUDATA_read_returns_buffer[OF h, of 0] h by simp
qed

theorem PPUADDR_double_write_witness:
  "vramAddressLatch ppu0 = None \<and> vramAddress ppu0 = 0x2000
   \<and> vramAddress (PPU_write (PPU_write ppu0 0x2006 0x00) 0x2006 0x10) = 0x2000
   \<and> vramAddressLatch (PPU_write (PPU_write ppu0 0x2006 0x00) 0x2006 0x10) = Some 0x10
   \<and> vramAddress (PPU_write (PPU_write ppu0 0x2006 0x3F) 0x2006 0x10) = 0x3F10
   \<and> vramAddressLatch (PPU_write (PPU_write ppu0 0x2006 0x3F) 0x2006 0x10) = None"
proof -
  have h: "vramAddressLatch ppu0 = None" by (simp add: ppu0_def newPPU_def)
  have v: "vramAddress ppu0 = 0x2000"
    by (simp add: ppu0_def newPPU_def NAMETABLE_0_START_ADDRESS_def)
  show ?thesis
    using PPUADDR_double_write[OF h, of "0x00" "0x10"] PPUADDR_double_write[OF h, of "0x3F" "0x10"] h v
    by simp
qed

theorem PPU_registers_not_mirrored_witness:
  "(0x2008 :: int) \<le> 0x200A \<and> (0x200A :: int) \<le> 0x3FFF
   \<and> ppustatusVBlank ppu0_vblank = 1
   \<and> PPU_read ppu0_vblank 0x200A = (0x00, ppu0_vblank)
   \<and> ppustatusVBlank (snd (PPU_read ppu0_vblank 0x200A)) = 1
   \<and> ppustatusVBlank (snd (PPU_read ppu0_vblank 0x2002)) = 0
   \<and> PPU_write ppu0_vblank 0x200E 0x3F = ppu0_vblank"
proof -
  have e: "ppustatusVBlank ppu0_vblank = 1 \<and> ppustatusVBlank (snd (PPU_read ppu0_vblank 0x2002)) = 0"
    by (simp add: ppu_eval)
  show ?thesis
    using PPU_registers_not_mirrored[of "0x200A" ppu0_vblank]
      PPU_registers_not_mirrored[of "0x200E" ppu0_vblank "0x3F"] e
    by simp
qed

section \<open>The dot clock and vertical blank\<close>

lemma getBit_bit: "getBit x i = (if bit x i then 1 else 0)"
  by (simp add: getBit_def push_bit_eq_mult and_exp_eq_0_iff_not_bit)

lemma getBit_setBit_same: "i < 8 \<Longrightarrow> getBit (setBit x i v) i = (if v then 1 else 0)"
  by (simp add: getBit_bit setBit_def bit_simps)

lemma getBit_setBit_other: "i \<noteq> j \<Longrightarrow> getBit (setBit x i v) j = getBit x j"
  by (auto simp: getBit_bit setBit_def bit_simps dest: bit_imp_le_length)

lemma setImageByte_fields [simp]:
  "bytes (setImageByte p i v) = bytes p"
  "startAddress (setImageByte p i v) = startAddress p"
  "actualSize (setImageByte p i v) = actualSize p"
  "cycle (setImageByte p i v) = cycle p"
  "scanline (setImageByte p i v) = scanline p"
  by (simp_all add: setImageByte_def)

lemma getPalette_fields [simp]:
  "bytes (snd (getPalette p y x a)) = bytes p"
  "startAddress (snd (getPalette p y x a)) = startAddress p"
  "actualSize (snd (getPalette p y x a)) = actualSize p"
  "cycle (snd (getPalette p y x a)) = cycle p"
  "scanline (snd (getPalette p y x a)) = scanline p"
  by (simp_all add: getPalette_def Let_def case_prod_unfold)

lemma drawBackground_fields [simp]:
  "bytes (drawBackground p) = bytes p"
  "startAddress (drawBackground p) = startAddress p"
  "actualSize (drawBackground p) = actualSize p"
  "cycle (drawBackground p) = cycle p"
  "scanline (drawBackground p) = scanline p"
  by (simp_all add: drawBackground_def Let_def case_prod_unfold split: option.splits)

lemma set_flag_fields [simp]:
  "startAddress (set_ppustatusVBlank p v) = startAddress p"
  "actualSize (set_ppustatusVBlank p v) = actualSize p"
  "length (bytes (set_ppustatusVBlank p v)) = length (bytes p)"
  "cycle (set_ppustatusVBlank p v) = cycle p"
  "scanline (set_ppustatusVBlank p v) = scanline p"
  "startAddress (set_ppustatusSpriteZeroHit p v) = startAddress p"
  "actualSize (set_ppustatusSpriteZeroHit p v) = actualSize p"
  "length (bytes (set_ppustatusSpriteZeroHit p v)) = length (bytes p)"
  "cycle (set_ppustatusSpriteZeroHit p v) = cycle p"
  "scanline (set_ppustatusSpriteZeroHit p v) = scanline p"
  by (simp_all add: set_ppustatusVBlank_def set_ppustatusSpriteZeroHit_def)

lemma status_file:
  assumes "registerFile p"
  shows "registerPPUSTATUS p = bytes p ! 2"
    and "setRegister p REGISTER_PPUSTATUS v = p\<lparr>bytes := (bytes p)[2 := v]\<rparr>"
  using getRegister_file[OF assms, of 2] setRegister_file[OF assms, of 2 v]
  by (simp_all add: registerPPUSTATUS_def REGISTER_PPUSTATUS_def)

lemma ppustatusVBlank_frame:
  "startAddress q = startAddress p \<Longrightarrow> actualSize q = actualSize p
     \<Longrightarrow> bytes q = bytes p \<Longrightarrow> ppustatusVBlank q = ppustatusVBlank p"
  by (simp add: ppustatusVBlank_def registerPPUSTATUS_def getRegister_def)

lemma VBlank_after_set:
  assumes "registerFile p"
  shows "ppustatusVBlank (set_ppustatusVBlank p v) = (if v then 1 else 0)"
proof -
  have r: "registerFile (p\<lparr>bytes := (bytes p)[2 := x]\<rparr>)" for x
    using assms by (simp add: registerFile_def)
  show ?thesis
    using assms
    by (simp add: ppustatusVBlank_def set_ppustatusVBlank_def status_file[OF assms]
        status_file(1)[OF r] registerFile_def STATUS_FLAG_BIT_PPUSTATUS_VBLANK_def
        getBit_setBit_same)
qed

lemma VBlank_after_spriteZero:
  assumes "registerFile p"
  shows "ppustatusVBlank (set_ppustatusSpriteZeroHit p v) = ppustatusVBlank p"
proof -
  have r: "registerFile (p\<lparr>bytes := (bytes p)[2 := x]\<rparr>)" for x
    using assms by (simp add: registerFile_def)
  show ?thesis
    using assms
    by (simp add: ppustatusVBlank_def set_ppustatusSpriteZeroHit_def status_file[OF assms]
        status_file(1)[OF r] registerFile_def STATUS_FLAG_BIT_PPUSTATUS_VBLANK_def
        STATUS_FLAG_BIT_PPUSTATUS_SPRITE_ZERO_HIT_def getBit_setBit_other)
qed

lemma generateNMI_fields [simp]:
  "bytes (generateNMI p) = bytes p"
  "startAddress (generateNMI p) = startAddress p"
  "actualSize (generateNMI p) = actualSize p"
  "cycle (generateNMI p) = cycle p"
  "scanline (generateNMI p) = scanline p"
  by (simp_all add: generateNMI_def)

lemma flush_fields [simp]:
  "bytes (flush p) = bytes p"
  "startAddress (flush p) = startAddress p"
  "actualSize (flush p) = actualSize p"
  "cycle (flush p) = cycle p"
  "scanline (flush p) = scanline p"
  by (simp_all add: flush_def)

lemmas ntsc =
  NTSC_CYCLES_PER_SCANLINE_def NTSC_SCANLINES_def NTSC_PRE_RENDER_SCANLINE_def
  NTSC_VBLANK_START_SCANLINE_def NTSC_VBLANK_END_SCANLINE_def NTSC_VBLANK_START_CYCLE_def
  NTSC_VBLANK_END_CYCLE_def NTSC_VISIBLE_START_SCANLINE_def NTSC_VISIBLE_END_SCANLINE_def
  NTSC_VISIBLE_START_CYCLE_def NTSC_VISIBLE_END_CYCLE_def




lemma VBlank_flush [simp]: "ppustatusVBlank (flush q) = ppustatusVBlank q"
  by (rule ppustatusVBlank_frame) simp_all

lemma VBlank_generateNMI [simp]: "ppustatusVBlank (generateNMI q) = ppustatusVBlank q"
  by (rule ppustatusVBlank_frame) simp_all

lemma registerFile_set_ppustatusVBlank [simp]:
  "registerFile (set_ppustatusVBlank q v) = registerFile q"
  by (simp add: registerFile_def)

lemma registerFile_set_ppustatusSpriteZeroHit [simp]:
  "registerFile (set_ppustatusSpriteZeroHit q v) = registerFile q"
  by (simp add: registerFile_def)

lemma registerFile_flush [simp]: "registerFile (flush q) = registerFile q"
  by (simp add: registerFile_def)

lemma registerFile_generateNMI [simp]: "registerFile (generateNMI q) = registerFile q"
  by (simp add: registerFile_def)

lemma stage_vblank_start:
  assumes "registerFile q"
  shows "ppustatusVBlank (flush (if ppuctrlNMIEnable (set_ppustatusVBlank q True) \<noteq> 0
                                 then generateNMI (set_ppustatusVBlank q True)
                                 else set_ppustatusVBlank q True)) = 1"
    and "registerFile (flush (if ppuctrlNMIEnable (set_ppustatusVBlank q True) \<noteq> 0
                                 then generateNMI (set_ppustatusVBlank q True)
                                 else set_ppustatusVBlank q True))"
    and "cycle (flush (if ppuctrlNMIEnable (set_ppustatusVBlank q True) \<noteq> 0
                                 then generateNMI (set_ppustatusVBlank q True)
                                 else set_ppustatusVBlank q True)) = cycle q"
    and "scanline (flush (if ppuctrlNMIEnable (set_ppustatusVBlank q True) \<noteq> 0
                                 then generateNMI (set_ppustatusVBlank q True)
                                 else set_ppustatusVBlank q True)) = scanline q"
  using assms VBlank_after_set[OF assms, of True]
  by (cases "ppuctrlNMIEnable (set_ppustatusVBlank q True) \<noteq> 0"; simp)+

lemma stage_spriteZero:
  assumes "registerFile q"
  shows "registerFile (if c then set_ppustatusSpriteZeroHit q v else q)"
    and "cycle (if c then set_ppustatusSpriteZeroHit q v else q) = cycle q"
    and "scanline (if c then set_ppustatusSpriteZeroHit q v else q) = scanline q"
    and "ppustatusVBlank (if c then set_ppustatusSpriteZeroHit q v else q) = ppustatusVBlank q"
  using assms by (simp_all add: VBlank_after_spriteZero)


lemma stage_draw_frame:
  "bytes (if isVisible p then
            let q = p\<lparr>visibleX := cycle p - NTSC_VISIBLE_START_CYCLE, visibleY := scanline p\<rparr>
            in if ppumaskBackgroundEnable q \<noteq> 0 then drawBackground q else q
          else p) = bytes p"
  "startAddress (if isVisible p then
            let q = p\<lparr>visibleX := cycle p - NTSC_VISIBLE_START_CYCLE, visibleY := scanline p\<rparr>
            in if ppumaskBackgroundEnable q \<noteq> 0 then drawBackground q else q
          else p) = startAddress p"
  "actualSize (if isVisible p then
            let q = p\<lparr>visibleX := cycle p - NTSC_VISIBLE_START_CYCLE, visibleY := scanline p\<rparr>
            in if ppumaskBackgroundEnable q \<noteq> 0 then drawBackground q else q
          else p) = actualSize p"
  "cycle (if isVisible p then
            let q = p\<lparr>visibleX := cycle p - NTSC_VISIBLE_START_CYCLE, visibleY := scanline p\<rparr>
            in if ppumaskBackgroundEnable q \<noteq> 0 then drawBackground q else q
          else p) = cycle p"
  "scanline (if isVisible p then
            let q = p\<lparr>visibleX := cycle p - NTSC_VISIBLE_START_CYCLE, visibleY := scanline p\<rparr>
            in if ppumaskBackgroundEnable q \<noteq> 0 then drawBackground q else q
          else p) = scanline p"
  by (simp_all add: Let_def)

lemma execute_facts:
  assumes rf: "registerFile p"
  shows "registerFile (execute p) \<and> cycle (execute p) = cycle p \<and> scanline (execute p) = scanline p
       \<and> ppustatusVBlank (execute p) =
           (if scanline p = 262 \<and> cycle p = 1 then 0
            else if scanline p = 241 \<and> cycle p = 1 then 1
            else ppustatusVBlank p)"
proof -
  define p1 where "p1 = (if isVisible p then
                  let q = p\<lparr>visibleX := cycle p - NTSC_VISIBLE_START_CYCLE, visibleY := scanline p\<rparr>
                  in if ppumaskBackgroundEnable q \<noteq> 0 then drawBackground q else q
                else p)"
  define p2 where "p2 = (if scanline p1 = NTSC_PRE_RENDER_SCANLINE \<and> cycle p1 = 0
                then set_ppustatusSpriteZeroHit p1 False else p1)"
  define p3 where "p3 = (if scanline p2 = NTSC_VISIBLE_START_SCANLINE \<and> cycle p2 = NTSC_VISIBLE_START_CYCLE
                then set_ppustatusSpriteZeroHit p2 True else p2)"
  define p4 where "p4 = (if scanline p3 = NTSC_VBLANK_START_SCANLINE \<and> cycle p3 = NTSC_VBLANK_START_CYCLE
                then let q1 = set_ppustatusVBlank p3 True;
                         q2 = (if ppuctrlNMIEnable q1 \<noteq> 0 then generateNMI q1 else q1)
                     in flush q2
                else p3)"
  define p5 where "p5 = (if scanline p4 = NTSC_VBLANK_END_SCANLINE \<and> cycle p4 = NTSC_VBLANK_END_CYCLE
                then set_ppustatusVBlank p4 False else p4)"
  have e: "execute p = p5"
    unfolding execute_def p5_def p4_def p3_def p2_def p1_def Let_def by (rule refl)
  have b1: "bytes p1 = bytes p" and s1: "startAddress p1 = startAddress p"
    and a1: "actualSize p1 = actualSize p" and c1: "cycle p1 = cycle p"
    and l1: "scanline p1 = scanline p"
    unfolding p1_def by (rule stage_draw_frame)+
  have r1: "registerFile p1" using rf b1 s1 a1 by (simp add: registerFile_def)
  have v1: "ppustatusVBlank p1 = ppustatusVBlank p"
    using s1 a1 b1 by (rule ppustatusVBlank_frame)
  have r2: "registerFile p2" and c2: "cycle p2 = cycle p1" and l2: "scanline p2 = scanline p1"
    and v2: "ppustatusVBlank p2 = ppustatusVBlank p1"
    unfolding p2_def by (rule stage_spriteZero[OF r1])+
  have r3: "registerFile p3" and c3: "cycle p3 = cycle p2" and l3: "scanline p3 = scanline p2"
    and v3: "ppustatusVBlank p3 = ppustatusVBlank p2"
    unfolding p3_def by (rule stage_spriteZero[OF r2])+
  have p3c: "cycle p3 = cycle p" "scanline p3 = scanline p" "ppustatusVBlank p3 = ppustatusVBlank p"
    using c1 c2 c3 l1 l2 l3 v1 v2 v3 by simp_all
  have r4: "registerFile p4" and c4: "cycle p4 = cycle p" and l4: "scanline p4 = scanline p"
    and v4: "ppustatusVBlank p4 = (if scanline p = 241 \<and> cycle p = 1 then 1 else ppustatusVBlank p)"
    unfolding p4_def Let_def
    using r3 p3c stage_vblank_start[OF r3]
    by (simp_all add: NTSC_VBLANK_START_SCANLINE_def NTSC_VBLANK_START_CYCLE_def)
  have r5: "registerFile p5" and c5: "cycle p5 = cycle p" and l5: "scanline p5 = scanline p"
    and v5: "ppustatusVBlank p5 =
           (if scanline p = 262 \<and> cycle p = 1 then 0
            else if scanline p = 241 \<and> cycle p = 1 then 1
            else ppustatusVBlank p)"
    unfolding p5_def
    using r4 c4 l4 v4 VBlank_after_set[OF r4, of False]
    by (simp_all add: NTSC_VBLANK_END_SCANLINE_def NTSC_VBLANK_END_CYCLE_def)
  show ?thesis unfolding e using r5 c5 l5 v5 by simp
qed

lemma PPU_ticks_Suc_end: "PPU_ticks (Suc n) p = PPU_tick (PPU_ticks n p)"
  by (induction n arbitrary: p) simp_all

lemma VBlank_counters [simp]:
  "ppustatusVBlank (q\<lparr>cycle := c\<rparr>) = ppustatusVBlank q"
  "ppustatusVBlank (q\<lparr>scanline := l\<rparr>) = ppustatusVBlank q"
  "ppustatusVBlank (q\<lparr>lastCycleIsVBlank := x, lastCycleIsVisible := y\<rparr>) = ppustatusVBlank q"
  "ppustatusVBlank (q\<lparr>visibleX := c, visibleY := l\<rparr>) = ppustatusVBlank q"
  by (rule ppustatusVBlank_frame; simp)+

lemma registerFile_counters [simp]:
  "registerFile (q\<lparr>cycle := c\<rparr>) = registerFile q"
  "registerFile (q\<lparr>scanline := l\<rparr>) = registerFile q"
  "registerFile (q\<lparr>lastCycleIsVBlank := x, lastCycleIsVisible := y\<rparr>) = registerFile q"
  "registerFile (q\<lparr>visibleX := c, visibleY := l\<rparr>) = registerFile q"
  by (simp_all add: registerFile_def)

lemma PPU_tick_facts:
  assumes rf: "registerFile q"
  shows "registerFile (PPU_tick q)"
    and "ppustatusVBlank (PPU_tick q) =
           (if scanline q = 262 \<and> cycle q = 1 then 0
            else if scanline q = 241 \<and> cycle q = 1 then 1
            else ppustatusVBlank q)"
    and "cycle (PPU_tick q) = (if cycle q + 1 \<ge> 341 then 0 else cycle q + 1)"
    and "scanline (PPU_tick q) =
           (if cycle q + 1 \<ge> 341 then (if scanline q + 1 \<ge> 262 then 0 else scanline q + 1)
            else scanline q)"
proof -
  define e where "e = execute q"
  have ef: "registerFile e" "cycle e = cycle q" "scanline e = scanline q"
    "ppustatusVBlank e =
           (if scanline q = 262 \<and> cycle q = 1 then 0
            else if scanline q = 241 \<and> cycle q = 1 then 1
            else ppustatusVBlank q)"
    using execute_facts[OF rf] by (simp_all add: e_def)
  have t: "PPU_tick q =
     (let p2 = e\<lparr>lastCycleIsVBlank := isVBlank e, lastCycleIsVisible := isVisible e\<rparr>;
          p3 = p2\<lparr>cycle := cycle p2 + 1\<rparr>
      in if cycle p3 \<ge> NTSC_CYCLES_PER_SCANLINE then
           let p4 = p3\<lparr>cycle := 0, scanline := scanline p3 + 1\<rparr>
           in if scanline p4 \<ge> NTSC_SCANLINES then p4\<lparr>scanline := 0\<rparr> else p4
         else p3)"
    unfolding PPU_tick_def e_def Let_def by (rule refl)
  show "registerFile (PPU_tick q)"
    unfolding t using ef(1) by (simp add: Let_def)
  show "ppustatusVBlank (PPU_tick q) =
           (if scanline q = 262 \<and> cycle q = 1 then 0
            else if scanline q = 241 \<and> cycle q = 1 then 1
            else ppustatusVBlank q)"
    unfolding t using ef(4) by (simp add: Let_def)
  show "cycle (PPU_tick q) = (if cycle q + 1 \<ge> 341 then 0 else cycle q + 1)"
    unfolding t using ef(2) by (simp add: Let_def NTSC_CYCLES_PER_SCANLINE_def NTSC_SCANLINES_def)
  show "scanline (PPU_tick q) =
           (if cycle q + 1 \<ge> 341 then (if scanline q + 1 \<ge> 262 then 0 else scanline q + 1)
            else scanline q)"
    unfolding t using ef(2,3) by (simp add: Let_def NTSC_CYCLES_PER_SCANLINE_def NTSC_SCANLINES_def)
qed

lemma dot_next:
  "Suc n mod 341 = (if n mod 341 = 340 then 0 else Suc (n mod 341))"
  by (simp add: mod_Suc)

lemma line_next:
  "(Suc n div 341) mod 262 =
     (if n mod 341 = 340
      then (if (n div 341) mod 262 = 261 then 0 else Suc ((n div 341) mod 262))
      else (n div 341) mod 262)"
  by (simp add: div_Suc mod_Suc)

lemma before_vblank:
  assumes "(n::nat) < 82182"
  shows "\<not> ((n div 341) mod 262 = 241 \<and> n mod 341 = 1)"
proof
  assume a: "(n div 341) mod 262 = 241 \<and> n mod 341 = 1"
  have "n div 341 \<le> 82181 div 341" using assms by (intro div_le_mono) simp
  then have d: "n div 341 \<le> 241" by simp
  then have "(n div 341) mod 262 = n div 341" by simp
  then have "n div 341 = 241" using a by simp
  moreover have "n div 341 * 341 + n mod 341 = n" by (rule div_mult_mod_eq)
  ultimately have "n = 82182" using a by simp
  then show False using assms by simp
qed

lemma PPU_reset_facts:
  "registerFile (PPU_reset p) = registerFile p"
  "ppustatusVBlank (PPU_reset p) = ppustatusVBlank p"
  "cycle (PPU_reset p) = 0" "scanline (PPU_reset p) = 0"
  by (simp_all add: PPU_reset_def registerFile_def ppustatusVBlank_def registerPPUSTATUS_def
      getRegister_def)

lemma PPU_run_invariant:
  assumes rf: "registerFile p"
  shows "registerFile (PPU_ticks n (PPU_reset p))
       \<and> cycle (PPU_ticks n (PPU_reset p)) = int (n mod 341)
       \<and> scanline (PPU_ticks n (PPU_reset p)) = int ((n div 341) mod 262)
       \<and> ppustatusVBlank (PPU_ticks n (PPU_reset p)) = (if 82183 \<le> n then 1 else ppustatusVBlank p)"
proof (induction n)
  case 0
  show ?case using rf by (simp add: PPU_reset_facts)
next
  case (Suc n)
  define s where "s = PPU_ticks n (PPU_reset p)"
  have ih: "registerFile s" "cycle s = int (n mod 341)" "scanline s = int ((n div 341) mod 262)"
    "ppustatusVBlank s = (if 82183 \<le> n then 1 else ppustatusVBlank p)"
    using Suc by (simp_all add: s_def)
  have nx: "PPU_ticks (Suc n) (PPU_reset p) = PPU_tick s"
    by (simp only: PPU_ticks_Suc_end s_def)
  have lt: "n mod 341 < 341" "(n div 341) mod 262 < 262" by simp_all
  have c: "cycle (PPU_tick s) = int (Suc n mod 341)"
    unfolding PPU_tick_facts(3)[OF ih(1)] ih(2) dot_next using lt(1) by auto
  have l: "scanline (PPU_tick s) = int ((Suc n div 341) mod 262)"
    unfolding PPU_tick_facts(4)[OF ih(1)] ih(2,3) line_next using lt by auto
  have n262: "scanline s \<noteq> 262" using ih(3) lt(2) by simp
  have v0: "ppustatusVBlank (PPU_tick s) =
              (if (n div 341) mod 262 = 241 \<and> n mod 341 = 1 then 1 else ppustatusVBlank s)"
    unfolding PPU_tick_facts(2)[OF ih(1)] using n262 ih(2,3) by simp
  have v: "ppustatusVBlank (PPU_tick s) = (if 82183 \<le> Suc n then 1 else ppustatusVBlank p)"
  proof (cases "82183 \<le> n")
    case True
    then show ?thesis unfolding v0 ih(4) by simp
  next
    case False
    show ?thesis
    proof (cases "n = 82182")
      case True
      then show ?thesis unfolding v0 by simp
    next
      case ne: False
      then have "n < 82182" using False by simp
      then have nc: "\<not> ((n div 341) mod 262 = 241 \<and> n mod 341 = 1)"
        by (rule before_vblank)
      have "ppustatusVBlank (PPU_tick s) = ppustatusVBlank s"
        unfolding v0 using nc by (rule if_not_P)
      moreover have "\<not> 82183 \<le> Suc n" using False ne by simp
      ultimately show ?thesis using ih(4) False by simp
    qed
  qed
  show ?case
    unfolding nx using PPU_tick_facts(1)[OF ih(1)] c l v by simp
qed


text \<open>
  The part of the claim about the start of vertical blank holds: the tick made at
  scanline 241, dot 1 sets the VBlank bit, emits \<open>nmi\<close> on the PPU bus exactly when
  NMI-enable is set, and hands the frame buffer to the canvas.
\<close>

lemma NMIEnable_after_set_VBlank:
  assumes "registerFile q"
  shows "ppuctrlNMIEnable (set_ppustatusVBlank q v) = ppuctrlNMIEnable q"
proof -
  have r: "registerFile (q\<lparr>bytes := (bytes q)[2 := x]\<rparr>)" for x
    using assms by (simp add: registerFile_def)
  show ?thesis
    using getRegister_file[OF r, of 0] getRegister_file[OF assms, of 0]
    by (simp add: ppuctrlNMIEnable_def registerPPUCTRL_def REGISTER_PPUCTRL_def
        set_ppustatusVBlank_def status_file[OF assms])
qed

lemma execute_vblank_start:
  assumes "registerFile q" "scanline q = 241" "cycle q = 1"
  shows "execute q = flush (if ppuctrlNMIEnable q \<noteq> 0
                            then generateNMI (set_ppustatusVBlank q True)
                            else set_ppustatusVBlank q True)"
  using assms
  by (simp add: execute_def isVisible_def ntsc Let_def NMIEnable_after_set_VBlank)

lemma PPU_tick_vblank_start:
  assumes "registerFile q" "scanline q = 241" "cycle q = 1"
  shows "ppustatusVBlank (PPU_tick q) = 1"
    and "emitted (ppuBus (PPU_tick q)) =
           emitted (ppuBus q) @ (if ppuctrlNMIEnable q \<noteq> 0 then [''nmi''] else [])"
    and "presented (PPU_tick q) = presented q @ [imageBytes q]"
    and "scanline (PPU_tick q) = 241 \<and> cycle (PPU_tick q) = 2"
proof -
  show "ppustatusVBlank (PPU_tick q) = 1"
    using PPU_tick_facts(2)[OF assms(1)] assms(2,3) by simp
  show "scanline (PPU_tick q) = 241 \<and> cycle (PPU_tick q) = 2"
    using PPU_tick_facts(3,4)[OF assms(1)] assms(2,3) by simp
  show "emitted (ppuBus (PPU_tick q)) =
           emitted (ppuBus q) @ (if ppuctrlNMIEnable q \<noteq> 0 then [''nmi''] else [])"
    using assms(2,3)
    by (simp add: PPU_tick_def execute_vblank_start[OF assms] Let_def flush_def generateNMI_def
        Bus_emit_def set_ppustatusVBlank_def setRegister_def NTSC_CYCLES_PER_SCANLINE_def)
  show "presented (PPU_tick q) = presented q @ [imageBytes q]"
    using assms(2,3)
    by (simp add: PPU_tick_def execute_vblank_start[OF assms] Let_def flush_def generateNMI_def
        Bus_emit_def set_ppustatusVBlank_def setRegister_def NTSC_CYCLES_PER_SCANLINE_def)
qed

text \<open>
  Claim C3.  From reset, with no access by the CPU, the PPU after \<open>n\<close> ticks is at dot
  \<open>n mod 341\<close> of scanline \<open>(n div 341) mod 262\<close>: the counters stay in 0..340 and
  0..261 and wrap at (340, 261), and the VBlank bit is first set by the tick made at
  scanline 241, dot 1, which is tick number 82183.  The scanline counter is never 262,
  so the branch of \<^verbatim>\<open>execute\<close> that clears the bit at scanline 262, dot 1 is never
  taken: from tick 82183 on the bit is set after every tick, and the claim that it is
  cleared again fails.
\<close>

theorem PPU_vblank_never_cleared_by_tick:
  assumes "registerFile p"
  shows "cycle (PPU_ticks n (PPU_reset p)) = int (n mod 341)
       \<and> scanline (PPU_ticks n (PPU_reset p)) = int ((n div 341) mod 262)
       \<and> scanline (PPU_ticks n (PPU_reset p)) \<noteq> 262
       \<and> ppustatusVBlank (PPU_ticks n (PPU_reset p)) = (if 82183 \<le> n then 1 else ppustatusVBlank p)"
proof -
  have "(n div 341) mod 262 < 262" by simp
  then have "int ((n div 341) mod 262) \<noteq> 262" by linarith
  then show ?thesis using PPU_run_invariant[OF assms, of n] by simp
qed

text \<open>
  The PPU of the console as constructed: VBlank is clear at first and after 82182 ticks,
  set after 82183 ticks, and still set two whole frames (178684 ticks) after reset, when
  the PPU is back at dot 0 of scanline 0.
\<close>

theorem PPU_vblank_never_cleared_by_tick_witness:
  "registerFile ppu0 \<and> ppustatusVBlank ppu0 = 0
   \<and> scanline (PPU_ticks 82182 (PPU_reset ppu0)) = 241
   \<and> cycle (PPU_ticks 82182 (PPU_reset ppu0)) = 1
   \<and> ppustatusVBlank (PPU_ticks 82182 (PPU_reset ppu0)) = 0
   \<and> ppustatusVBlank (PPU_ticks 82183 (PPU_reset ppu0)) = 1
   \<and> scanline (PPU_ticks 178684 (PPU_reset ppu0)) = 0
   \<and> cycle (PPU_ticks 178684 (PPU_reset ppu0)) = 0
   \<and> ppustatusVBlank (PPU_ticks 178684 (PPU_reset ppu0)) = 1"
proof -
  have h: "registerFile ppu0" by (simp add: ppu_eval)
  have z: "ppustatusVBlank ppu0 = 0" by (simp add: ppu_eval)
  show ?thesis
    using PPU_vblank_never_cleared_by_tick[OF h, of 82182]
      PPU_vblank_never_cleared_by_tick[OF h, of 82183]
      PPU_vblank_never_cleared_by_tick[OF h, of 178684] h z
    by simp
qed

section \<open>The CPU bus and the program counter\<close>

lemma PPU_read_start [simp]: "startAddress (snd (PPU_read p a)) = startAddress p"
  by (simp add: PPU_read_def Let_def case_prod_unfold)

lemma generateNMI_start: "startAddress (generateNMI p) = startAddress p"
  by simp

lemma PPU_write_start [simp]: "startAddress (PPU_write p a v) = startAddress p"
  by (simp add: PPU_write_def Let_def)

lemma device_read_start [simp]: "device_start (snd (device_read d a)) = device_start d"
proof (cases d)
  case (Region x)
  then show ?thesis by (cases x) simp_all
next
  case (Controller c)
  then show ?thesis by (simp add: Controller_read_def Let_def)
next
  case (PPU p)
  then show ?thesis by (simp add: case_prod_unfold Let_def)
qed

lemma device_write_start [simp]: "device_start (device_write d a v) = device_start d"
proof (cases d)
  case (Region x)
  then show ?thesis by (cases x) (simp_all add: RAM_write_def ROM_write_def Addressable_write_def)
next
  case (Controller c)
  then show ?thesis by simp
next
  case (PPU p)
  then show ?thesis by simp
qed

lemma readFirst_starts [simp]:
  "map device_start (snd (readFirst devices ds a)) = map device_start ds"
  by (induction ds) (simp_all add: devices_def case_prod_unfold Let_def)

lemma writeFirst_starts [simp]:
  "map device_start (writeFirst devices ds a v) = map device_start ds"
  by (induction ds) (simp_all add: devices_def)

lemma mappedAt_starts:
  "mappedAt bus a = (\<exists>x\<in>set (map device_start (addressables bus)). x \<le> a)"
  by (auto simp: mappedAt_def list_ex_iff)

lemma mappedAt_read [simp]: "mappedAt (snd (Bus_read devices bus a)) a' = mappedAt bus a'"
  by (simp add: mappedAt_starts Bus_read_def case_prod_unfold Let_def del: set_map)

lemma mappedAt_write [simp]: "mappedAt (Bus_write devices bus a v) a' = mappedAt bus a'"
  by (simp add: mappedAt_starts Bus_write_def del: set_map)

lemma mappedAt_mono:
  assumes "mappedAt bus a" "a \<le> a'"
  shows "mappedAt bus a'"
proof -
  obtain d where d: "d \<in> set (addressables bus)" "device_start d \<le> a"
    using assms(1) by (auto simp: mappedAt_def list_ex_iff)
  then have "device_start d \<le> a'" using assms(2) by linarith
  then show ?thesis using d(1) by (auto simp: mappedAt_def list_ex_iff)
qed

lemma readFirst_mapped:
  "list_ex (\<lambda>d. startAddressOf C d \<le> a) ds \<Longrightarrow> \<exists>v. fst (readFirst C ds a) = Some v"
  by (induction ds) (auto simp: case_prod_unfold Let_def)

lemma Bus_read_mapped:
  "mappedAt bus a \<Longrightarrow> \<exists>v. fst (Bus_read devices bus a) = Some v"
  using readFirst_mapped[of devices a "addressables bus"]
  by (simp add: mappedAt_def Bus_read_def case_prod_unfold Let_def devices_def)

lemma cpuBus_read_fields [simp]:
  "regA (snd (cpuBus_read s a)) = regA s" "regX (snd (cpuBus_read s a)) = regX s"
  "regY (snd (cpuBus_read s a)) = regY s" "regP (snd (cpuBus_read s a)) = regP s"
  "regSP (snd (cpuBus_read s a)) = regSP s" "regPC (snd (cpuBus_read s a)) = regPC s"
  "cpuBus (snd (cpuBus_read s a)) = snd (Bus_read devices (cpuBus s) a)"
  "fst (cpuBus_read s a) = fst (Bus_read devices (cpuBus s) a)"
  by (simp_all add: cpuBus_read_def listen_def case_prod_unfold Let_def)

lemma cpuBus_write_fields [simp]:
  "regA (cpuBus_write s a v) = regA s" "regX (cpuBus_write s a v) = regX s"
  "regY (cpuBus_write s a v) = regY s" "regP (cpuBus_write s a v) = regP s"
  "regSP (cpuBus_write s a v) = regSP s" "regPC (cpuBus_write s a v) = regPC s"
  "cpuBus (cpuBus_write s a v) = Bus_write devices (cpuBus s) a v"
  by (simp_all add: cpuBus_write_def listen_def Let_def)

lemma set_pc_mapped:
  assumes "mappedAt (cpuBus s) (regPC s)"
  shows "\<exists>s'. set_pc s v = Inr s' \<and> regPC s' = v \<and> regA s' = regA s \<and> regP s' = regP s
            \<and> regSP s' = regSP s"
proof -
  define s1 where "s1 = snd (cpuBus_read s (regPC s))"
  define s2 where "s2 = snd (cpuBus_read s1 (regPC s1))"
  define s3 where "s3 = snd (cpuBus_read s2 (regPC s2 + 1))"
  define s4 where "s4 = snd (cpuBus_read s3 (regPC s3 + 2))"
  have pc: "regPC s1 = regPC s" "regPC s2 = regPC s" "regPC s3 = regPC s"
    by (simp_all add: s1_def s2_def s3_def)
  have m1: "mappedAt (cpuBus s1) (regPC s)" using assms by (simp add: s1_def)
  have m2: "mappedAt (cpuBus s2) (regPC s)" using m1 by (simp add: s2_def)
  have m3: "mappedAt (cpuBus s3) (regPC s)" using m2 by (simp add: s3_def)
  obtain v1 where v1: "fst (cpuBus_read s1 (regPC s1)) = Some v1"
    using Bus_read_mapped[OF m1] by (auto simp: pc)
  obtain v2 where v2: "fst (cpuBus_read s2 (regPC s2 + 1)) = Some v2"
    using Bus_read_mapped[OF mappedAt_mono[OF m2, of "regPC s + 1"]] by (auto simp: pc)
  obtain v3 where v3: "fst (cpuBus_read s3 (regPC s3 + 2)) = Some v3"
    using Bus_read_mapped[OF mappedAt_mono[OF m3, of "regPC s + 2"]] by (auto simp: pc)
  have "set_pc s v = Inr (s4\<lparr>regPC := v\<rparr>)"
    unfolding set_pc_def
    using v1 v2 v3
    by (simp add: case_prod_unfold Let_def s1_def[symmetric] s2_def[symmetric]
        s3_def[symmetric] s4_def[symmetric])
  moreover have "regA s4 = regA s" "regP s4 = regP s" "regSP s4 = regSP s"
    by (simp_all add: s4_def s3_def s2_def s1_def)
  ultimately show ?thesis by simp
qed

section \<open>Add with carry\<close>

lemma sign_bit: "((x::int) AND 0x80 \<noteq> 0) = bit x 7"
  using and_exp_eq_0_iff_not_bit[of x 7] by simp

lemma sign_bit_byte: "((v::byte) AND 0x80 \<noteq> 0) = bit v 7"
  using and_exp_eq_0_iff_not_bit[of v 7] by simp

lemma overflow_low_byte:
  "((NOT (x XOR y) AND (x XOR i)) AND 0x80 \<noteq> 0)
     = ((NOT (x XOR y) AND (x XOR (i mod 256))) AND 0x80 \<noteq> (0::int))"
proof -
  have "i mod 256 = take_bit 8 i" by (simp add: take_bit_eq_mod)
  then have "bit (i mod 256) 7 = bit i 7" by (simp add: bit_take_bit_iff)
  then show ?thesis
    unfolding sign_bit by (simp add: bit_simps)
qed

lemma low_byte: "0xff AND (i::int) = i mod 256"
proof -
  have m: "(0xff::int) = mask 8" by (simp add: mask_eq_exp_minus_1)
  have "i AND mask 8 = take_bit 8 i" by (simp only: take_bit_eq_mask)
  then have "mask 8 AND i = i mod 256" by (simp only: and.commute take_bit_eq_mod) simp
  then show ?thesis by (simp only: m)
qed

lemma uint_byte_of_mod: "uint (word_of_int (i mod 256) :: byte) = i mod 256"
  by (simp add: uint_word_of_int)

lemma setStatusFlag_regs [simp]:
  "regA (setStatusFlag s i v) = regA s" "regSP (setStatusFlag s i v) = regSP s"
  "regPC (setStatusFlag s i v) = regPC s" "cpuBus (setStatusFlag s i v) = cpuBus s"
  "regP (setStatusFlag s i v) = setBit (regP s) i v"
  by (simp_all add: setStatusFlag_def)

lemma adc_imm_state:
  assumes rd: "fst (Bus_read devices (cpuBus s) (getAddressImm s)) = Some m"
      and mp: "mappedAt (cpuBus s) (regPC s)"
  shows "\<exists>s'. adc_imm s = Inr s'
           \<and> regA s' = word_of_int ((uint (regA s) + uint m + int (statusCarry s)) mod 256)
           \<and> regP s' =
               setBit (setBit (setBit (setBit (regP s) 0
                   (uint (regA s) + uint m + int (statusCarry s) > 255)) 6
                   ((NOT (uint (regA s) XOR uint m)
                       AND (uint (regA s) XOR ((uint (regA s) + uint m + int (statusCarry s)) mod 256)))
                     AND 0x80 \<noteq> 0)) 7
                   (bit (word_of_int ((uint (regA s) + uint m + int (statusCarry s)) mod 256) :: byte) 7)) 1
                   ((word_of_int ((uint (regA s) + uint m + int (statusCarry s)) mod 256) :: byte) = 0)
           \<and> regPC s' = 0xffff AND (regPC s + 2)"
proof -
  define s1 where "s1 = snd (cpuBus_read s (getAddressImm s))"
  define i where "i = uint (regA s) + uint m + int (statusCarry s)"
  define s6 where "s6 =
     updateStatusZero
       (updateStatusNegative
          (setStatusFlag
             (setStatusFlag (s1\<lparr>regA := word_of_int (0xff AND i)\<rparr>) STATUS_FLAG_BIT_CARRY (i > 0xff))
             STATUS_FLAG_BIT_OVERFLOW
             ((NOT (uint (regA s) XOR uint m) AND (uint (regA s) XOR i)) AND push_bit 7 1 \<noteq> 0))
          (word_of_int (0xff AND i)))
       (word_of_int (0xff AND i))"
  have c1: "statusCarry s1 = statusCarry s" "regA s1 = regA s"
    by (simp_all add: s1_def statusCarry_def getStatusFlag_def)
  have e: "adc_imm s =
             (case set_pc s6 (0xffff AND (regPC s6 + 2)) of
                Inl e \<Rightarrow> Inl e
              | Inr s7 \<Rightarrow> Inr (s7\<lparr>cyclesRemaining := 2\<rparr>))"
    unfolding adc_imm_def
    using rd c1
    by (simp add: case_prod_unfold Let_def s1_def[symmetric] toInt32_def i_def[symmetric]
        s6_def)
  have f6: "regPC s6 = regPC s" "cpuBus s6 = cpuBus s1" "regA s6 = word_of_int (i mod 256)"
    by (simp_all add: s6_def updateStatusZero_def updateStatusNegative_def s1_def low_byte)
  have ov: "((NOT (uint (regA s) XOR uint m) AND (uint (regA s) XOR i)) AND 0x80 \<noteq> 0)
              = ((NOT (uint (regA s) XOR uint m) AND (uint (regA s) XOR (i mod 256))) AND 0x80 \<noteq> 0)"
    by (rule overflow_low_byte)
  have p6: "regP s6 =
              setBit (setBit (setBit (setBit (regP s) 0 (i > 255)) 6
                   ((NOT (uint (regA s) XOR uint m) AND (uint (regA s) XOR (i mod 256))) AND 0x80 \<noteq> 0)) 7
                   (bit (word_of_int (i mod 256) :: byte) 7)) 1
                   ((word_of_int (i mod 256) :: byte) = 0)"
    using ov
    by (simp add: s6_def updateStatusZero_def updateStatusNegative_def s1_def low_byte
        STATUS_FLAG_BIT_CARRY_def STATUS_FLAG_BIT_OVERFLOW_def STATUS_FLAG_BIT_NEGATIVE_def
        STATUS_FLAG_BIT_ZERO_def sign_bit_byte)
  have "mappedAt (cpuBus s6) (regPC s6)"
    using mp by (simp add: f6 s1_def)
  from set_pc_mapped[OF this, of "0xffff AND (regPC s6 + 2)"] obtain s7 where
    s7: "set_pc s6 (0xffff AND (regPC s6 + 2)) = Inr s7" "regPC s7 = 0xffff AND (regPC s6 + 2)"
        "regA s7 = regA s6" "regP s7 = regP s6"
    by blast
  show ?thesis
    unfolding e using s7 f6 p6 by (simp add: i_def)
qed

lemma bit_setBit_same: "i < 8 \<Longrightarrow> bit (setBit x i v) i = v"
  by (simp add: setBit_def bit_simps)

lemma bit_setBit_other: "i \<noteq> j \<Longrightarrow> bit (setBit x i v) j = bit x j"
  by (auto simp: setBit_def bit_simps dest: bit_imp_le_length)

lemma statusCarry_bit: "int (statusCarry s) = of_bool (bit (regP s) 0)"
  by (simp add: statusCarry_def getStatusFlag_def STATUS_FLAG_BIT_CARRY_def getBit_bit)

text \<open>
  Claim C6.  \<^verbatim>\<open>adc_imm\<close> with accumulator \<open>A\<close>, operand byte \<open>M\<close> and carry-in \<open>c\<close>, which
  is bit 0 of the status register P before the instruction, sets the accumulator to
  \<open>(A + M + c) mod 256\<close>, C (bit 0 of P) iff \<open>A + M + c > 255\<close>, V (bit 6) iff
  \<open>(~(A ^ M) & (A ^ result)) & 0x80\<close> is not zero, N (bit 7) to bit 7 of the result and
  Z (bit 1) iff the result is 0.  So 0x7F + 0x01 with carry clear gives 0x80 with V and
  N set and C clear, and 0xFF + 0x01 gives 0x00 with C and Z set and V and N clear;
  with the carry set, 0x7F + 0x00 gives 0x80 with V and N set and C clear as well.  The
  operand is the byte the bus returns at \<open>(PC + 1) & 0xffff\<close>; the bus must also answer
  at PC, where the setter of \<^verbatim>\<open>pc\<close> reads for the debug log.
\<close>

theorem adc_imm_flags:
  assumes rd: "fst (Bus_read devices (cpuBus s) (getAddressImm s)) = Some m"
      and mp: "mappedAt (cpuBus s) (regPC s)"
  shows "\<exists>s'. adc_imm s = Inr s'
           \<and> uint (regA s') = (uint (regA s) + uint m + of_bool (bit (regP s) 0)) mod 256
           \<and> bit (regP s') 0 = (uint (regA s) + uint m + of_bool (bit (regP s) 0) > 255)
           \<and> bit (regP s') 6 =
               ((NOT (uint (regA s) XOR uint m) AND (uint (regA s) XOR uint (regA s'))) AND 0x80 \<noteq> 0)
           \<and> bit (regP s') 7 = bit (regA s') 7
           \<and> bit (regP s') 1 = (regA s' = 0)
           \<and> (regA s = 0x7F \<and> m = 0x01 \<and> \<not> bit (regP s) 0 \<longrightarrow>
                regA s' = 0x80 \<and> bit (regP s') 6 \<and> bit (regP s') 7 \<and> \<not> bit (regP s') 0)
           \<and> (regA s = 0xFF \<and> m = 0x01 \<and> \<not> bit (regP s) 0 \<longrightarrow>
                regA s' = 0x00 \<and> bit (regP s') 0 \<and> bit (regP s') 1
                \<and> \<not> bit (regP s') 6 \<and> \<not> bit (regP s') 7)
           \<and> (regA s = 0x7F \<and> m = 0x00 \<and> bit (regP s) 0 \<longrightarrow>
                regA s' = 0x80 \<and> bit (regP s') 6 \<and> bit (regP s') 7 \<and> \<not> bit (regP s') 0)"
proof -
  define i where "i = uint (regA s) + uint m + of_bool (bit (regP s) 0)"
  have ic: "uint (regA s) + uint m + int (statusCarry s) = i"
    by (simp add: i_def statusCarry_bit)
  from adc_imm_state[OF rd mp] obtain s' where
    r: "adc_imm s = Inr s'" and a: "regA s' = word_of_int (i mod 256)"
    and p: "regP s' =
               setBit (setBit (setBit (setBit (regP s) 0 (i > 255)) 6
                   ((NOT (uint (regA s) XOR uint m) AND (uint (regA s) XOR (i mod 256))) AND 0x80 \<noteq> 0)) 7
                   (bit (word_of_int (i mod 256) :: byte) 7)) 1
                   ((word_of_int (i mod 256) :: byte) = 0)"
    unfolding ic by blast
  have ua: "uint (regA s') = i mod 256" unfolding a by (rule uint_byte_of_mod)
  have c: "bit (regP s') 0 = (i > 255)"
    unfolding p by (simp add: bit_setBit_other bit_setBit_same)
  have v: "bit (regP s') 6 =
             ((NOT (uint (regA s) XOR uint m) AND (uint (regA s) XOR uint (regA s'))) AND 0x80 \<noteq> 0)"
    unfolding p ua by (simp add: bit_setBit_other bit_setBit_same)
  have n: "bit (regP s') 7 = bit (regA s') 7"
    unfolding p a by (simp add: bit_setBit_other bit_setBit_same)
  have z: "bit (regP s') 1 = (regA s' = 0)"
    unfolding p a by (simp add: bit_setBit_other bit_setBit_same)
  have k1: "regA s' = 0x80 \<and> bit (regP s') 6 \<and> bit (regP s') 7 \<and> \<not> bit (regP s') 0"
    if "regA s = 0x7F \<and> m = 0x01 \<and> \<not> bit (regP s) 0"
  proof -
    have i: "i = 128" using that by (simp add: i_def)
    have a': "regA s' = 0x80" unfolding a i by simp
    show ?thesis using c v n ua that unfolding a' i by simp
  qed
  have k2: "regA s' = 0x00 \<and> bit (regP s') 0 \<and> bit (regP s') 1
              \<and> \<not> bit (regP s') 6 \<and> \<not> bit (regP s') 7"
    if "regA s = 0xFF \<and> m = 0x01 \<and> \<not> bit (regP s) 0"
  proof -
    have i: "i = 256" using that by (simp add: i_def)
    have a': "regA s' = 0x00" unfolding a i by simp
    show ?thesis using c v n z ua that unfolding a' i by simp
  qed
  have k3: "regA s' = 0x80 \<and> bit (regP s') 6 \<and> bit (regP s') 7 \<and> \<not> bit (regP s') 0"
    if "regA s = 0x7F \<and> m = 0x00 \<and> bit (regP s) 0"
  proof -
    have i: "i = 128" using that by (simp add: i_def)
    have a': "regA s' = 0x80" unfolding a i by simp
    show ?thesis using c v n ua that unfolding a' i by simp
  qed
  show ?thesis
    using r ua c v n z k1 k2 k3 unfolding i_def by blast
qed

lemmas cpu_eval =
  adc_7F_def adc_FF_def adc_7F_carry_def cpu0_def cpuBus0_def ram0_def ppu0_def newPPU_def
  NES_prg_rom_def
  cpuBus_write_def cpuBus_read_def listen_def Bus_write_def Bus_read_def devices_def
  Addressable_def newController_def addressable.extend_def controller.fields_def
  RAM_write_def RAM_read_def js_rem_def storeAt_def byteAt_def getAddressImm_def
  statusCarry_def getStatusFlag_def getBit_def mappedAt_def REGISTER_START_ADDRESS_def
  STATUS_FLAG_BIT_CARRY_def Let_def

text \<open>
  The two additions of the claim with the carry clear (\<open>P = 0x34\<close>) and the addition
  0x7F + 0x00 with the carry set (\<open>P = 0x35\<close>), on the console's bus.
\<close>

theorem adc_imm_flags_witness:
  "fst (Bus_read devices (cpuBus adc_7F) (getAddressImm adc_7F)) = Some 0x01
   \<and> mappedAt (cpuBus adc_7F) (regPC adc_7F)
   \<and> regA adc_7F = 0x7F \<and> regP adc_7F = 0x34 \<and> \<not> bit (regP adc_7F) 0
   \<and> (\<exists>s'. adc_imm adc_7F = Inr s' \<and> regA s' = 0x80 \<and> bit (regP s') 6
            \<and> bit (regP s') 7 \<and> \<not> bit (regP s') 0)
   \<and> fst (Bus_read devices (cpuBus adc_FF) (getAddressImm adc_FF)) = Some 0x01
   \<and> mappedAt (cpuBus adc_FF) (regPC adc_FF)
   \<and> regA adc_FF = 0xFF \<and> regP adc_FF = 0x34 \<and> \<not> bit (regP adc_FF) 0
   \<and> (\<exists>s'. adc_imm adc_FF = Inr s' \<and> regA s' = 0x00 \<and> bit (regP s') 0
            \<and> bit (regP s') 1 \<and> \<not> bit (regP s') 6 \<and> \<not> bit (regP s') 7)
   \<and> fst (Bus_read devices (cpuBus adc_7F_carry) (getAddressImm adc_7F_carry)) = Some 0x00
   \<and> mappedAt (cpuBus adc_7F_carry) (regPC adc_7F_carry)
   \<and> regA adc_7F_carry = 0x7F \<and> regP adc_7F_carry = 0x35 \<and> bit (regP adc_7F_carry) 0
   \<and> (\<exists>s'. adc_imm adc_7F_carry = Inr s' \<and> regA s' = 0x80 \<and> bit (regP s') 6
            \<and> bit (regP s') 7 \<and> \<not> bit (regP s') 0)"
proof -
  have h1: "fst (Bus_read devices (cpuBus adc_7F) (getAddressImm adc_7F)) = Some 0x01"
    by (simp add: cpu_eval)
  have h2: "mappedAt (cpuBus adc_7F) (regPC adc_7F)"
    by (simp add: cpu_eval)
  have h3: "regA adc_7F = 0x7F" and h4: "regP adc_7F = 0x34"
    and h5: "\<not> bit (regP adc_7F) 0"
    by (simp_all add: cpu_eval)
  have g1: "fst (Bus_read devices (cpuBus adc_FF) (getAddressImm adc_FF)) = Some 0x01"
    by (simp add: cpu_eval)
  have g2: "mappedAt (cpuBus adc_FF) (regPC adc_FF)"
    by (simp add: cpu_eval)
  have g3: "regA adc_FF = 0xFF" and g4: "regP adc_FF = 0x34"
    and g5: "\<not> bit (regP adc_FF) 0"
    by (simp_all add: cpu_eval)
  have f1: "fst (Bus_read devices (cpuBus adc_7F_carry) (getAddressImm adc_7F_carry)) = Some 0x00"
    by (simp add: cpu_eval)
  have f2: "mappedAt (cpuBus adc_7F_carry) (regPC adc_7F_carry)"
    by (simp add: cpu_eval)
  have f3: "regA adc_7F_carry = 0x7F" and f4: "regP adc_7F_carry = 0x35"
    and f5: "bit (regP adc_7F_carry) 0"
    by (simp_all add: cpu_eval)
  have e1: "\<exists>s'. adc_imm adc_7F = Inr s' \<and> regA s' = 0x80 \<and> bit (regP s') 6
              \<and> bit (regP s') 7 \<and> \<not> bit (regP s') 0"
    using adc_imm_flags[OF h1 h2] h3 h5 by blast
  have e2: "\<exists>s'. adc_imm adc_FF = Inr s' \<and> regA s' = 0x00 \<and> bit (regP s') 0
              \<and> bit (regP s') 1 \<and> \<not> bit (regP s') 6 \<and> \<not> bit (regP s') 7"
    using adc_imm_flags[OF g1 g2] g3 g5 by blast
  have e3: "\<exists>s'. adc_imm adc_7F_carry = Inr s' \<and> regA s' = 0x80 \<and> bit (regP s') 6
              \<and> bit (regP s') 7 \<and> \<not> bit (regP s') 0"
    using adc_imm_flags[OF f1 f2] f3 f5 by blast
  show ?thesis
    using h1 h2 h3 h4 h5 e1 g1 g2 g3 g4 g5 e2 f1 f2 f3 f4 f5 e3 by blast
qed

section \<open>The stack and return from interrupt\<close>

lemma stackInRAM_decomp:
  assumes "stackInRAM bus"
  shows "\<exists>pre m post. stackRAM (addressables bus) pre m post"
proof -
  obtain d where f: "find (\<lambda>d. device_start d \<le> 0x1ff) (addressables bus) = Some d"
    using assms by (auto simp: stackInRAM_def split: option.splits)
  then obtain m where d: "d = Region (RAM m)"
    using assms by (auto simp: stackInRAM_def split: device.splits region.splits)
  have c: "startAddress m \<le> 0x100 \<and> 0x200 - startAddress m \<le> actualSize m \<and>
          actualSize m \<le> int (length (bytes m))"
    using assms f d by (simp add: stackInRAM_def)
  from f obtain i where i: "i < length (addressables bus)" "addressables bus ! i = d"
    "\<forall>j<i. \<not> device_start (addressables bus ! j) \<le> 0x1ff"
    by (auto simp: find_Some_iff)
  have "addressables bus = take i (addressables bus) @ d # drop (Suc i) (addressables bus)"
    using id_take_nth_drop[OF i(1)] i(2) by simp
  moreover have "list_all (\<lambda>d. 0x1ff < device_start d) (take i (addressables bus))"
    using i(1,3) by (auto simp: list_all_length)
  ultimately show ?thesis using c d unfolding stackRAM_def by blast
qed

lemma writeFirst_skip:
  "list_all (\<lambda>d. a < startAddressOf C d) pre \<Longrightarrow> startAddressOf C d \<le> a
     \<Longrightarrow> writeFirst C (pre @ d # post) a v = pre @ writeOf C d a v # post"
  by (induction pre) auto

lemma readFirst_skip:
  "list_all (\<lambda>d. a < startAddressOf C d) pre \<Longrightarrow> startAddressOf C d \<le> a
     \<Longrightarrow> readFirst C (pre @ d # post) a
           = (Some (fst (readOf C d a)), pre @ snd (readOf C d a) # post)"
  by (induction pre) (auto simp: case_prod_unfold Let_def)

lemma nmiEmitted_append: "nmiEmitted (xs @ ys) = nmiEmitted xs + nmiEmitted ys"
  by (induction xs rule: nmiEmitted.induct) simp_all

lemma stack_index:
  assumes "startAddress m \<le> 0x100" "0x200 - startAddress m \<le> actualSize m"
    "actualSize m \<le> int (length (bytes m))" "0x100 \<le> a" "a \<le> 0x1ff"
  shows "js_rem (a - startAddress m) (actualSize m) = Some (a - startAddress m)"
    and "0 \<le> a - startAddress m" and "a - startAddress m < int (length (bytes m))"
proof -
  have p: "0 \<le> a - startAddress m" "a - startAddress m < actualSize m" using assms by linarith+
  then have "(a - startAddress m) mod actualSize m = a - startAddress m" by simp
  then show "js_rem (a - startAddress m) (actualSize m) = Some (a - startAddress m)"
    using p by (simp add: js_rem_def sgn_if)
  show "0 \<le> a - startAddress m" by (rule p)
  show "a - startAddress m < int (length (bytes m))" using p assms(3) by linarith
qed

lemma stackRAM_write:
  assumes "stackRAM ds pre m post" "0x100 \<le> a" "a \<le> 0x1ff"
  shows "writeFirst devices ds a v
           = pre @ Region (RAM (m\<lparr>bytes := (bytes m)[nat (a - startAddress m) := v]\<rparr>)) # post"
    and "stackRAM (writeFirst devices ds a v) pre
           (m\<lparr>bytes := (bytes m)[nat (a - startAddress m) := v]\<rparr>) post"
proof -
  have pre: "list_all (\<lambda>d. a < startAddressOf devices d) pre"
    using assms by (auto simp: stackRAM_def devices_def list_all_iff)
  have st: "startAddressOf devices (Region (RAM m)) \<le> a"
    using assms by (simp add: stackRAM_def devices_def)
  have c: "startAddress m \<le> 0x100" "0x200 - startAddress m \<le> actualSize m"
    "actualSize m \<le> int (length (bytes m))"
    using assms(1) by (simp_all add: stackRAM_def)
  have w: "RAM_write m a v = m\<lparr>bytes := (bytes m)[nat (a - startAddress m) := v]\<rparr>"
    using stack_index[OF c assms(2,3)] by (simp add: RAM_write_def storeAt_def)
  have ds: "ds = pre @ Region (RAM m) # post" using assms(1) by (simp add: stackRAM_def)
  show e: "writeFirst devices ds a v
           = pre @ Region (RAM (m\<lparr>bytes := (bytes m)[nat (a - startAddress m) := v]\<rparr>)) # post"
    unfolding ds writeFirst_skip[OF pre st] by (simp add: devices_def w)
  show "stackRAM (writeFirst devices ds a v) pre
           (m\<lparr>bytes := (bytes m)[nat (a - startAddress m) := v]\<rparr>) post"
    unfolding e using assms(1) by (simp add: stackRAM_def)
qed

lemma stackRAM_read:
  assumes "stackRAM ds pre m post" "0x100 \<le> a" "a \<le> 0x1ff"
  shows "readFirst devices ds a = (Some (bytes m ! nat (a - startAddress m)), ds)"
proof -
  have pre: "list_all (\<lambda>d. a < startAddressOf devices d) pre"
    using assms by (auto simp: stackRAM_def devices_def list_all_iff)
  have st: "startAddressOf devices (Region (RAM m)) \<le> a"
    using assms by (simp add: stackRAM_def devices_def)
  have c: "startAddress m \<le> 0x100" "0x200 - startAddress m \<le> actualSize m"
    "actualSize m \<le> int (length (bytes m))"
    using assms(1) by (simp_all add: stackRAM_def)
  have r: "RAM_read m a = bytes m ! nat (a - startAddress m)"
    using stack_index[OF c assms(2,3)] by (simp add: RAM_read_def byteAt_def)
  have ds: "ds = pre @ Region (RAM m) # post" using assms(1) by (simp add: stackRAM_def)
  show ?thesis
    unfolding ds readFirst_skip[OF pre st] by (simp add: devices_def r)
qed

lemma stack_address:
  "push_bit 8 STACK_PAGE OR uint (w::byte) = 0x100 + uint w"
proof -
  have b: "bit (256::int) n = (n = 8)" for n
    using bit_exp_iff[of 8 n, where ?'a = int] by auto
  have "(256::int) + uint w = 256 OR uint w"
    by (rule disjunctive_add) (auto simp: b bit_uint_iff)
  then show ?thesis by (simp add: STACK_PAGE_def)
qed

lemma stack_address_range: "0x100 \<le> 0x100 + uint (w::byte) \<and> 0x100 + uint w \<le> 0x1ff"
  using uint_lt2p[of w] by simp

lemma byte_of_mod: "(word_of_int (i mod 256) :: byte) = word_of_int i"
proof -
  have "(word_of_int (take_bit 8 i) :: byte) = word_of_int i"
    by (rule wi_bintr) simp
  then show ?thesis by (simp add: take_bit_eq_mod)
qed

lemma sp_down: "(word_of_int (0xff AND (uint (w::byte) - 1)) :: byte) = w - 1"
  unfolding low_byte byte_of_mod by simp

lemma sp_up: "(word_of_int (0xff AND (uint (w::byte) + 1)) :: byte) = w + 1"
  unfolding low_byte byte_of_mod by simp

lemma pushStack_stack:
  assumes "stackRAM (addressables (cpuBus s)) pre m post"
  shows "stackRAM (addressables (cpuBus (pushStack s v))) pre
           (m\<lparr>bytes := (bytes m)[nat (0x100 + uint (regSP s) - startAddress m) := v]\<rparr>) post"
    and "regSP (pushStack s v) = regSP s - 1"
    and "regPC (pushStack s v) = regPC s"
    and "mappedAt (cpuBus (pushStack s v)) a = mappedAt (cpuBus s) a"
proof -
  have rg: "0x100 \<le> 0x100 + uint (regSP s)" "0x100 + uint (regSP s) \<le> 0x1ff"
    using stack_address_range[of "regSP s"] by simp_all
  show "stackRAM (addressables (cpuBus (pushStack s v))) pre
           (m\<lparr>bytes := (bytes m)[nat (0x100 + uint (regSP s) - startAddress m) := v]\<rparr>) post"
    using stackRAM_write(2)[OF assms rg, of v]
    by (simp add: pushStack_def Let_def stack_address Bus_write_def)
  show "regSP (pushStack s v) = regSP s - 1"
    by (simp add: pushStack_def Let_def sp_down)
  show "regPC (pushStack s v) = regPC s"
    by (simp add: pushStack_def Let_def)
  show "mappedAt (cpuBus (pushStack s v)) a = mappedAt (cpuBus s) a"
    by (simp add: pushStack_def Let_def)
qed

lemma pullStack_stack:
  assumes "stackRAM (addressables (cpuBus s)) pre m post"
  shows "fst (pullStack s) = Some (bytes m ! nat (0x100 + uint (regSP s + 1) - startAddress m))"
    and "addressables (cpuBus (snd (pullStack s))) = addressables (cpuBus s)"
    and "regSP (snd (pullStack s)) = regSP s + 1"
    and "regPC (snd (pullStack s)) = regPC s"
    and "mappedAt (cpuBus (snd (pullStack s))) a = mappedAt (cpuBus s) a"
proof -
  define t where "t = s\<lparr>regSP := regSP s + 1\<rparr>"
  have pl: "pullStack s = cpuBus_read t (0x100 + uint (regSP s + 1))"
    by (simp add: pullStack_def Let_def sp_up stack_address t_def)
  have st: "stackRAM (addressables (cpuBus t)) pre m post" using assms by (simp add: t_def)
  have rg: "0x100 \<le> 0x100 + uint (regSP s + 1)" "0x100 + uint (regSP s + 1) \<le> 0x1ff"
    using stack_address_range[of "regSP s + 1"] by simp_all
  have rd: "Bus_read devices (cpuBus t) (0x100 + uint (regSP s + 1))
              = (Some (bytes m ! nat (0x100 + uint (regSP s + 1) - startAddress m)), cpuBus t)"
    using stackRAM_read[OF st rg] by (simp add: Bus_read_def)
  show "fst (pullStack s) = Some (bytes m ! nat (0x100 + uint (regSP s + 1) - startAddress m))"
    unfolding pl by (simp add: rd)
  show "addressables (cpuBus (snd (pullStack s))) = addressables (cpuBus s)"
    unfolding pl by (simp add: rd) (simp add: t_def)
  show "regSP (snd (pullStack s)) = regSP s + 1"
    unfolding pl by (simp add: t_def)
  show "regPC (snd (pullStack s)) = regPC s"
    unfolding pl by (simp add: t_def)
  show "mappedAt (cpuBus (snd (pullStack s))) a = mappedAt (cpuBus s) a"
    unfolding pl by (simp add: t_def)
qed

lemma stack_slot_distinct:
  assumes "startAddress m \<le> 0x100" "(v::byte) \<noteq> w"
  shows "nat (0x100 + uint v - startAddress m) \<noteq> nat (0x100 + uint w - startAddress m)"
proof -
  have "uint v \<noteq> uint w" using assms(2) by (metis word_of_int_uint)
  moreover have "0 \<le> uint v" "0 \<le> uint w" by simp_all
  then have "0 \<le> 0x100 + uint v - startAddress m" "0 \<le> 0x100 + uint w - startAddress m"
    using assms(1) by linarith+
  ultimately show ?thesis by linarith
qed

lemma stack_slot_bound:
  assumes "stackRAM ds pre m post"
  shows "nat (0x100 + uint (w::byte) - startAddress m) < length (bytes m)"
proof -
  have c: "startAddress m \<le> 0x100" "0x200 - startAddress m \<le> actualSize m"
    "actualSize m \<le> int (length (bytes m))"
    using assms by (simp_all add: stackRAM_def)
  have "0x100 + uint w \<le> 0x1ff" using stack_address_range[of w] by simp
  then show ?thesis using c by linarith
qed

lemma push_then_rti_state:
  assumes sr: "stackInRAM (cpuBus s)" and mp: "mappedAt (cpuBus s) (regPC s)"
  shows "\<exists>s'. rti (pushStack (pushStack (pushStack s PCH) PCL) P) = Inr s'
           \<and> regP s' = setBit P 2 False
           \<and> regPC s' = uint PCL OR push_bit 8 (uint PCH)
           \<and> regSP s' = regSP s"
proof -
  obtain pre m post where st0: "stackRAM (addressables (cpuBus s)) pre m post"
    using stackInRAM_decomp[OF sr] by blast
  have sm: "startAddress m \<le> 0x100" using st0 by (simp add: stackRAM_def)
  define sp where "sp = regSP s"
  define k0 where "k0 = nat (0x100 + uint sp - startAddress m)"
  define k1 where "k1 = nat (0x100 + uint (sp - 1) - startAddress m)"
  define k2 where "k2 = nat (0x100 + uint (sp - 2) - startAddress m)"
  define m1 where "m1 = m\<lparr>bytes := (bytes m)[k0 := PCH]\<rparr>"
  define m2 where "m2 = m1\<lparr>bytes := (bytes m1)[k1 := PCL]\<rparr>"
  define m3 where "m3 = m2\<lparr>bytes := (bytes m2)[k2 := P]\<rparr>"
  define t1 where "t1 = pushStack s PCH"
  define t2 where "t2 = pushStack t1 PCL"
  define t3 where "t3 = pushStack t2 P"
  have s1: "stackRAM (addressables (cpuBus t1)) pre m1 post" "regSP t1 = sp - 1"
    "regPC t1 = regPC s" "mappedAt (cpuBus t1) (regPC s)"
    using pushStack_stack[OF st0, of PCH] mp
    by (simp_all add: t1_def m1_def k0_def sp_def)
  have sm1: "startAddress m1 = startAddress m" by (simp add: m1_def)
  have s2: "stackRAM (addressables (cpuBus t2)) pre m2 post" "regSP t2 = sp - 2"
    "regPC t2 = regPC s" "mappedAt (cpuBus t2) (regPC s)"
    using pushStack_stack[OF s1(1), of PCL] s1(2,3,4)
    by (simp_all add: t2_def m2_def k1_def sm1)
  have sm2: "startAddress m2 = startAddress m" by (simp add: m2_def sm1)
  have s3: "stackRAM (addressables (cpuBus t3)) pre m3 post" "regSP t3 = sp - 3"
    "regPC t3 = regPC s" "mappedAt (cpuBus t3) (regPC s)"
    using pushStack_stack[OF s2(1), of P] s2(2,3,4)
    by (simp_all add: t3_def m3_def k2_def sm2)
  have sm3: "startAddress m3 = startAddress m" by (simp add: m3_def sm2)
  have d: "k0 \<noteq> k1" "k0 \<noteq> k2" "k1 \<noteq> k2"
    unfolding k0_def k1_def k2_def
    by (rule stack_slot_distinct[OF sm]; simp)+
  have b: "k0 < length (bytes m)" "k1 < length (bytes m)" "k2 < length (bytes m)"
    unfolding k0_def k1_def k2_def by (rule stack_slot_bound[OF st0])+
  have v: "bytes m3 ! k2 = P" "bytes m3 ! k1 = PCL" "bytes m3 ! k0 = PCH"
    using d b by (simp_all add: m3_def m2_def m1_def)
  define u1 where "u1 = snd (pullStack t3)"
  define u2 where "u2 = snd (pullStack u1)"
  define u3 where "u3 = snd (pullStack u2)"
  have p1: "fst (pullStack t3) = Some P" "stackRAM (addressables (cpuBus u1)) pre m3 post"
    "regSP u1 = sp - 2" "regPC u1 = regPC s" "mappedAt (cpuBus u1) (regPC s)"
    using pullStack_stack[OF s3(1)] s3 v
    by (simp_all add: u1_def k2_def sm3)
  have p2: "fst (pullStack u1) = Some PCL" "stackRAM (addressables (cpuBus u2)) pre m3 post"
    "regSP u2 = sp - 1" "regPC u2 = regPC s" "mappedAt (cpuBus u2) (regPC s)"
    using pullStack_stack[OF p1(2)] p1 v
    by (simp_all add: u2_def k1_def sm3)
  have p3: "fst (pullStack u2) = Some PCH" "regSP u3 = sp" "regPC u3 = regPC s"
    "mappedAt (cpuBus u3) (regPC s)"
    using pullStack_stack[OF p2(2)] p2 v
    by (simp_all add: u3_def k0_def sm3)
  define u5 where "u5 = setStatusFlag (u3\<lparr>regP := P\<rparr>) STATUS_FLAG_BIT_INTERRUPT_DISABLE False"
  have e: "rti t3 =
             (case set_pc u5 (uint PCL OR push_bit 8 (uint PCH)) of
                Inl e \<Rightarrow> Inl e
              | Inr s6 \<Rightarrow> Inr (s6\<lparr>cyclesRemaining := 6\<rparr>))"
    unfolding rti_def
    using p1(1) p2(1) p3(1)
    by (simp add: case_prod_unfold Let_def u1_def[symmetric] u2_def[symmetric] u3_def[symmetric]
        toInt32_def toUint8_def u5_def)
  have f5: "regPC u5 = regPC s" "cpuBus u5 = cpuBus u3" "regSP u5 = sp" "regP u5 = setBit P 2 False"
    using p3 by (simp_all add: u5_def STATUS_FLAG_BIT_INTERRUPT_DISABLE_def)
  have "mappedAt (cpuBus u5) (regPC u5)" using p3(4) by (simp add: f5)
  from set_pc_mapped[OF this, of "uint PCL OR push_bit 8 (uint PCH)"] obtain s6 where
    s6: "set_pc u5 (uint PCL OR push_bit 8 (uint PCH)) = Inr s6"
        "regPC s6 = uint PCL OR push_bit 8 (uint PCH)" "regP s6 = regP u5" "regSP s6 = regSP u5"
    by blast
  show ?thesis
    unfolding t1_def[symmetric] t2_def[symmetric] t3_def[symmetric] e
    using s6 f5 by (simp add: sp_def)
qed

lemma cpu0_stack: "stackInRAM (cpuBus cpu0)"
  by (simp add: stackInRAM_def cpu_eval)

lemma cpu0_mapped: "mappedAt (cpuBus cpu0) (regPC cpu0)"
  by (simp add: cpu_eval)

lemma clear_bit2: "setBit P 2 False = P AND NOT 0x04"
  by (simp add: setBit_def)

text \<open>
  Claim C5, as amended.  On a CPU whose stack page is RAM and whose bus answers at the
  program counter, pushing PCH, PCL and P and then executing RTI ends with the program
  counter \<open>(PCH << 8) | PCL\<close>, the stack pointer where it was before the pushes, and the
  status register equal to the pushed P with the interrupt-disable bit (bit 2) cleared;
  so P itself is restored exactly when its bit 2 is clear.
\<close>

theorem push_then_rti_restores:
  assumes "stackInRAM (cpuBus s)" and "mappedAt (cpuBus s) (regPC s)"
  shows "\<exists>s'. rti (pushStack (pushStack (pushStack s PCH) PCL) P) = Inr s'
           \<and> regP s' = P AND NOT 0x04
           \<and> (if getBit P 2 = 0 then regP s' = P else regP s' \<noteq> P)
           \<and> regPC s' = push_bit 8 (uint PCH) OR uint PCL
           \<and> regSP s' = regSP s"
proof -
  from push_then_rti_state[OF assms, of PCH PCL P] obtain s' where
    s': "rti (pushStack (pushStack (pushStack s PCH) PCL) P) = Inr s'"
        "regP s' = setBit P 2 False" "regPC s' = uint PCL OR push_bit 8 (uint PCH)"
        "regSP s' = regSP s"
    by blast
  have b: "(P AND NOT 0x04 = P) = (getBit P 2 = 0)"
  proof
    assume "P AND NOT 0x04 = P"
    then have "setBit P 2 False = P" by (simp add: clear_bit2)
    then have "getBit P 2 = getBit (setBit P 2 False) 2" by simp
    then show "getBit P 2 = 0" by (simp add: getBit_setBit_same)
  next
    assume "getBit P 2 = 0"
    then have z: "P AND 0x04 = 0" by (simp add: getBit_def split: if_splits)
    have "P = P AND (0x04 OR NOT 0x04)" by simp
    also have "\<dots> = (P AND 0x04) OR (P AND NOT 0x04)" by (rule bit.conj_disj_distrib)
    finally show "P AND NOT 0x04 = P" using z by simp
  qed
  show ?thesis
    using s' b by (auto simp: clear_bit2 or.commute)
qed

text \<open>
  The theorem on the CPU of the console in its reset state, with the return address
  0x1234 and a status byte 0xF1 whose bit 2 is clear: all three are restored.
\<close>

theorem push_then_rti_restores_witness:
  "stackInRAM (cpuBus cpu0) \<and> mappedAt (cpuBus cpu0) (regPC cpu0)
   \<and> map_sum id regP (rti (pushStack (pushStack (pushStack cpu0 0x12) 0x34) 0xF1)) = Inr 0xF1
   \<and> map_sum id regPC (rti (pushStack (pushStack (pushStack cpu0 0x12) 0x34) 0xF1)) = Inr 0x1234
   \<and> map_sum id regSP (rti (pushStack (pushStack (pushStack cpu0 0x12) 0x34) 0xF1)) = Inr 0xFD"
proof -
  from push_then_rti_restores[OF cpu0_stack cpu0_mapped, of "0x12" "0x34" "0xF1"] obtain s' where
    s': "rti (pushStack (pushStack (pushStack cpu0 0x12) 0x34) 0xF1) = Inr s'"
        "regP s' = 0xF1 AND NOT 0x04" "regPC s' = push_bit 8 (uint (0x12 :: byte)) OR uint (0x34 :: byte)"
        "regSP s' = regSP cpu0"
    by blast
  have "regSP cpu0 = 0xFD" by (simp add: cpu0_def)
  then show ?thesis
    using s' cpu0_stack cpu0_mapped by simp
qed

text \<open>
  Claim C5 as stated fails for a status byte with the interrupt-disable bit set: after
  pushing 0x12, 0x34 and P = 0x04, RTI leaves the status register 0x00, not 0x04.
\<close>

theorem rti_clears_interrupt_disable_counterexample:
  "map_sum id regP (rti (pushStack (pushStack (pushStack cpu0 0x12) 0x34) 0x04)) = Inr 0x00
   \<and> map_sum id regP (rti (pushStack (pushStack (pushStack cpu0 0x12) 0x34) 0x04)) \<noteq> Inr 0x04"
proof -
  from push_then_rti_state[OF cpu0_stack cpu0_mapped, of "0x12" "0x34" "0x04"] obtain s' where
    s': "rti (pushStack (pushStack (pushStack cpu0 0x12) 0x34) 0x04) = Inr s'"
        "regP s' = setBit 0x04 2 False"
    by blast
  have "setBit (0x04 :: byte) 2 False = 0x00" by (simp add: setBit_def)
  then show ?thesis using s' by simp
qed

end
